theory Spec2Isabelle
  imports
    Complex_Main
    "HOL-Library.List_Lexorder"
    "HOL-Library.Char_ord"
    "HOL-Library.AList"
    "HOL-Library.Multiset"
    "HOL-Library.Extended_Nat"
begin

chapter \<open>code_index: chunker, Merkle tree, rank fusion, watcher\<close>

text \<open>
  A shallow embedding of the four source files of \<^verbatim>\<open>code_indexer\<close>:
  \<^verbatim>\<open>merkle_tree.py\<close>, \<^verbatim>\<open>code_splitter.py\<close>, \<^verbatim>\<open>hybrid_search.py\<close> and
  \<^verbatim>\<open>watcher.py\<close>. Library calls the repository does not implement are parameters of the
  definitions that use them: SHA-256 (\<^verbatim>\<open>hashlib\<close>), the tokenizer (\<^verbatim>\<open>tiktoken\<close>), the
  parser (\<^verbatim>\<open>tree_sitter\<close>), the embedding models and the answers of the vector store's
  nearest-neighbour search. Theorems about all inputs hold for every value of these
  parameters; where a definition is run on a concrete input, a stand-in named in the
  section of example inputs takes their place.

  Conventions: a path is the list of its components below the root of the index; bytes and
  text are both \<open>string\<close>; byte offsets and line numbers are natural numbers; the time of
  \<^verbatim>\<open>time.time()\<close> is a real number passed as an argument.
\<close>

section \<open>Exceptions\<close>

text \<open>
  The exceptions that leave the modelled code. A function that can raise returns
  \<open>py_error + 'a\<close>; one that changes the state before it raises returns the state and a
  \<open>py_error option\<close>.
\<close>

datatype py_error =
  IsADirectoryError | MaxChunkLengthExceededError nat | ValueError | ZeroDivisionError

section \<open>merkle\_tree.py\<close>

subsection \<open>The filesystem and the nodes\<close>

text \<open>
  The directory under \<^verbatim>\<open>root_path\<close>: a regular file with its bytes, or a directory with
  its entries in the order \<^verbatim>\<open>os.listdir\<close> gives them. A path is the list of its
  components below the root.
\<close>

datatype fs_entry = File string | Dir "(string \<times> fs_entry) list"

fun fs_lookup :: "string list \<Rightarrow> fs_entry \<Rightarrow> fs_entry option" where
  "fs_lookup [] e = Some e"
| "fs_lookup (p # ps) (File c) = None"
| "fs_lookup (p # ps) (Dir es) =
     (case map_of es p of None \<Rightarrow> None | Some e \<Rightarrow> fs_lookup ps e)"

text \<open>\<^verbatim>\<open>os.path.exists(file_path)\<close>.\<close>

definition path_exists :: "fs_entry \<Rightarrow> string list \<Rightarrow> bool" where
  "path_exists fs comps = (fs_lookup comps fs \<noteq> None)"

text \<open>
  \<^verbatim>\<open>os.path.relpath(file_path, self.root_path).split(os.sep)\<close>: the components below the
  root; the root itself has the relative path \<^verbatim>\<open>'.'\<close>.
\<close>

definition relpath_parts :: "string list \<Rightarrow> string list" where
  "relpath_parts comps = (if comps = [] then [''.''] else comps)"

text \<open>
  \<^verbatim>\<open>class MerkleNode\<close>: \<^verbatim>\<open>hash_value\<close>, \<^verbatim>\<open>is_file\<close> and the dict \<^verbatim>\<open>children\<close>, kept as an
  association list in insertion order. \<^verbatim>\<open>MerkleNode("")\<close> is \<open>empty_node\<close>.
\<close>

datatype merkle_node =
  MerkleNode (hash_value: string) (is_file: bool) (children: "(string \<times> merkle_node) list")

definition empty_node :: merkle_node where
  "empty_node = MerkleNode '''' False []"

text \<open>\<^verbatim>\<open>children.get(child, MerkleNode(""))\<close>.\<close>

definition child_or_empty :: "merkle_node \<Rightarrow> string \<Rightarrow> merkle_node" where
  "child_or_empty node name =
     (case map_of (children node) name of None \<Rightarrow> empty_node | Some n \<Rightarrow> n)"

text \<open>\<^verbatim>\<open>node.children[name] = child\<close>.\<close>

definition set_child :: "string \<Rightarrow> merkle_node \<Rightarrow> merkle_node \<Rightarrow> merkle_node" where
  "set_child name child node =
     MerkleNode (hash_value node) (is_file node) (AList.update name child (children node))"

subsection \<open>Hashes\<close>

text \<open>
  \<open>sha256\<close> stands for \<^verbatim>\<open>hashlib.sha256(bytes).hexdigest()\<close> in every definition below.
\<close>

definition compute_file_hash :: "(string \<Rightarrow> string) \<Rightarrow> string \<Rightarrow> string" where
  "compute_file_hash sha256 content = sha256 content"

definition compute_directory_hash :: "(string \<Rightarrow> string) \<Rightarrow> string list \<Rightarrow> string" where
  "compute_directory_hash sha256 children_hashes = sha256 (concat (sort children_hashes))"

subsection \<open>build\_tree\<close>

text \<open>
  \<^verbatim>\<open>_build_node(path, node)\<close> mutates \<^verbatim>\<open>node\<close>; the model returns the node after the
  call. Every child is built into a fresh \<^verbatim>\<open>MerkleNode("")\<close> and stored under its name;
  the directory hash is taken over the hashes the recursive calls returned.
\<close>

fun build_node :: "(string \<Rightarrow> string) \<Rightarrow> fs_entry \<Rightarrow> merkle_node \<Rightarrow> merkle_node" where
  "build_node sha256 (File content) node =
     MerkleNode (compute_file_hash sha256 content) True (children node)"
| "build_node sha256 (Dir entries) node =
     (let built = map (\<lambda>item. (fst item, build_node sha256 (snd item) empty_node)) entries
      in MerkleNode
           (compute_directory_hash sha256 (map (\<lambda>b. hash_value (snd b)) built))
           (is_file node)
           (fold (\<lambda>b cs. AList.update (fst b) (snd b) cs) built (children node)))"

text \<open>\<^verbatim>\<open>MerkleTree.__init__\<close>: a fresh root, then \<^verbatim>\<open>build_tree()\<close>.\<close>

definition build_tree :: "(string \<Rightarrow> string) \<Rightarrow> fs_entry \<Rightarrow> merkle_node \<Rightarrow> merkle_node" where
  "build_tree sha256 fs tree_root = build_node sha256 fs tree_root"

definition MerkleTree_init :: "(string \<Rightarrow> string) \<Rightarrow> fs_entry \<Rightarrow> merkle_node" where
  "MerkleTree_init sha256 fs = build_tree sha256 fs empty_node"

subsection \<open>get\_changes\<close>

text \<open>
  \<^verbatim>\<open>_compare_nodes\<close> appends to \<^verbatim>\<open>changes\<close>; the model returns what one call appends.
  The source iterates over a Python set of names, in no fixed order; the model takes the
  names of the two dicts in one fixed order, each name once.
\<close>

definition all_children :: "merkle_node \<Rightarrow> merkle_node \<Rightarrow> string list" where
  "all_children node1 node2 = remdups (map fst (children node1) @ map fst (children node2))"

function compare_nodes :: "string list \<Rightarrow> merkle_node \<Rightarrow> merkle_node \<Rightarrow> string list list" where
  "compare_nodes path node1 node2 =
     (if hash_value node1 \<noteq> hash_value node2 then
        (if is_file node1 then [path]
         else concat (map (\<lambda>child.
                compare_nodes (path @ [child]) (child_or_empty node1 child) (child_or_empty node2 child))
              (all_children node1 node2)))
      else [])"
  by pat_completeness auto

lemma size_empty_node_le: "size empty_node \<le> size (n::merkle_node)"
  by (cases n) (simp add: empty_node_def)

lemma map_of_size_lt:
  "map_of cs k = Some c \<Longrightarrow> size (c::merkle_node) < Suc (size_list (size_prod (\<lambda>x. 0) size) cs)"
  by (induction cs) (auto split: if_splits)

lemma child_size_lt: "map_of (children n) k = Some c \<Longrightarrow> size c < size n"
  using map_of_size_lt[of "children n" k c] by (cases n) simp

lemma child_or_empty_size_le: "size (child_or_empty n k) \<le> size n"
  unfolding child_or_empty_def
  by (auto split: option.splits simp: size_empty_node_le dest: child_size_lt less_imp_le)

lemma child_or_empty_size_lt:
  "k \<in> fst ` set (children n) \<Longrightarrow> size (child_or_empty n k) < size n"
  unfolding child_or_empty_def
  by (auto split: option.splits simp: map_of_eq_None_iff dest: child_size_lt)

termination compare_nodes
proof (relation "measure (\<lambda>(path, n1, n2). size n1 + size n2)", goal_cases)
  case 1
  show ?case by simp
next
  case (2 path node1 node2 child)
  then have "child \<in> fst ` set (children node1) \<or> child \<in> fst ` set (children node2)"
    by (auto simp: all_children_def)
  then show ?case
  proof
    assume "child \<in> fst ` set (children node1)"
    then have "size (child_or_empty node1 child) < size node1"
      by (rule child_or_empty_size_lt)
    moreover have "size (child_or_empty node2 child) \<le> size node2"
      by (rule child_or_empty_size_le)
    ultimately show ?thesis by simp
  next
    assume "child \<in> fst ` set (children node2)"
    then have "size (child_or_empty node2 child) < size node2"
      by (rule child_or_empty_size_lt)
    moreover have "size (child_or_empty node1 child) \<le> size node1"
      by (rule child_or_empty_size_le)
    ultimately show ?thesis by simp
  qed
qed

declare compare_nodes.simps [simp del]

text \<open>\<^verbatim>\<open>get_changes(other_tree)\<close>: the comparison from the two roots.\<close>

definition get_changes :: "merkle_node \<Rightarrow> merkle_node \<Rightarrow> string list list" where
  "get_changes tree_root other_root = compare_nodes [] tree_root other_root"

subsection \<open>update\_file\<close>

text \<open>
  The walk of \<^verbatim>\<open>update_file\<close> from the root along \<^verbatim>\<open>path_parts\<close>: a missing node on
  the way, and the leaf, is created as \<^verbatim>\<open>MerkleNode("")\<close>; \<open>f\<close> is what happens to the leaf
  (its two assignments, or nothing when \<^verbatim>\<open>compute_file_hash\<close> raised before them).
\<close>

fun walk_to_file ::
  "(merkle_node \<Rightarrow> merkle_node) \<Rightarrow> string list \<Rightarrow> merkle_node \<Rightarrow> merkle_node" where
  "walk_to_file f [] current_node = current_node"
| "walk_to_file f [file_name] current_node =
     set_child file_name (f (child_or_empty current_node file_name)) current_node"
| "walk_to_file f (part # rest) current_node =
     set_child part (walk_to_file f rest (child_or_empty current_node part)) current_node"

text \<open>
  \<^verbatim>\<open>_update_parent_hashes(path_parts, node)\<close>: from \<^verbatim>\<open>node\<close> downwards; each node it steps
  into gets the directory hash of the hashes its children hold at that moment, and the
  loop goes on below it. The node it starts from is never assigned.
\<close>

fun update_parent_hashes ::
  "(string \<Rightarrow> string) \<Rightarrow> string list \<Rightarrow> merkle_node \<Rightarrow> merkle_node" where
  "update_parent_hashes sha256 [] node = node"
| "update_parent_hashes sha256 (part # rest) node =
     (case map_of (children node) part of
        None \<Rightarrow> node
      | Some current_node \<Rightarrow>
          set_child part
            (update_parent_hashes sha256 rest
               (MerkleNode
                  (compute_directory_hash sha256 (map (\<lambda>c. hash_value (snd c)) (children current_node)))
                  (is_file current_node)
                  (children current_node)))
            node)"

text \<open>
  \<^verbatim>\<open>update_file(file_path)\<close> on the root node, with the filesystem as it is at the call.
  The result is the root after the call and the exception, if one was raised: opening a
  directory in \<^verbatim>\<open>compute_file_hash\<close> raises after the walk has created its nodes.
\<close>

definition update_file ::
  "(string \<Rightarrow> string) \<Rightarrow> fs_entry \<Rightarrow> string list \<Rightarrow> merkle_node \<Rightarrow> merkle_node \<times> py_error option" where
  "update_file sha256 fs comps tree_root =
     (case fs_lookup comps fs of
        None \<Rightarrow> (tree_root, None)
      | Some (Dir entries) \<Rightarrow>
          (walk_to_file (\<lambda>file_node. file_node) (relpath_parts comps) tree_root, Some IsADirectoryError)
      | Some (File content) \<Rightarrow>
          (let path_parts = relpath_parts comps;
               root1 = walk_to_file
                 (\<lambda>file_node. MerkleNode (compute_file_hash sha256 content) True (children file_node))
                 path_parts tree_root
           in (update_parent_hashes sha256 (butlast path_parts) root1, None)))"

subsection \<open>get\_node\_hash\<close>

fun walk_hash :: "string list \<Rightarrow> merkle_node \<Rightarrow> string option" where
  "walk_hash [] current_node = Some (hash_value current_node)"
| "walk_hash (part # rest) current_node =
     (case map_of (children current_node) part of
        None \<Rightarrow> None
      | Some child \<Rightarrow> walk_hash rest child)"

definition get_node_hash :: "fs_entry \<Rightarrow> string list \<Rightarrow> merkle_node \<Rightarrow> string option" where
  "get_node_hash fs comps tree_root =
     (if \<not> path_exists fs comps then None else walk_hash (relpath_parts comps) tree_root)"

text \<open>The node at a position of the tree: the children named by the parts, from the root.\<close>

fun node_at :: "string list \<Rightarrow> merkle_node \<Rightarrow> merkle_node option" where
  "node_at [] node = Some node"
| "node_at (part # rest) node =
     (case map_of (children node) part of None \<Rightarrow> None | Some child \<Rightarrow> node_at rest child)"

subsection \<open>get\_all\_files\<close>

fun collect_files :: "string list \<Rightarrow> merkle_node \<Rightarrow> string list list" where
  "collect_files path (MerkleNode h f cs) =
     (if f then [path]
      else concat (map (\<lambda>c. collect_files (path @ [fst c]) (snd c)) cs))"

definition get_all_files :: "merkle_node \<Rightarrow> string list list" where
  "get_all_files tree_root = collect_files [] tree_root"

section \<open>code\_splitter.py\<close>

subsection \<open>Span, ChunkMetadata and the syntax tree\<close>

text \<open>
  \<^verbatim>\<open>class Span\<close>: byte offsets \<^verbatim>\<open>start\<close> and \<^verbatim>\<open>end\<close> (the \<^verbatim>\<open>metadata\<close> dict stays empty in
  \<^verbatim>\<open>chunk_tree\<close> and is left out). Offsets are never negative: they are offsets of
  syntax nodes, \<open>0\<close>, or the length of the buffer.
\<close>

datatype span = Span (span_start: nat) (span_end: nat)

text \<open>\<^verbatim>\<open>Span.extract\<close>: the slice \<^verbatim>\<open>s[self.start : self.end]\<close>.\<close>

definition span_extract :: "span \<Rightarrow> string \<Rightarrow> string" where
  "span_extract chunk s = take (span_end chunk - span_start chunk) (drop (span_start chunk) s)"

text \<open>
  \<^verbatim>\<open>Span.__len__\<close> is \<^verbatim>\<open>end - start\<close>; Python's \<^verbatim>\<open>len\<close> raises \<^verbatim>\<open>ValueError\<close> on a negative
  result.
\<close>

definition span_len :: "span \<Rightarrow> py_error + nat" where
  "span_len chunk =
     (if span_end chunk < span_start chunk then Inl ValueError
      else Inr (span_end chunk - span_start chunk))"

text \<open>\<^verbatim>\<open>Span.__add__\<close> with a span: \<^verbatim>\<open>Span(self.start, other.end)\<close>.\<close>

definition span_add :: "span \<Rightarrow> span \<Rightarrow> span" where
  "span_add a b = Span (span_start a) (span_end b)"

record chunk_metadata =
  start_line :: nat
  end_line :: nat
  language :: string
  symbols :: "string list"
  imports' :: "string list"

text \<open>\<^verbatim>\<open>ChunkMetadata(start_line, end_line, language)\<close>: the two lists default to \<^verbatim>\<open>[]\<close>.\<close>

definition ChunkMetadata3 :: "nat \<Rightarrow> nat \<Rightarrow> string \<Rightarrow> chunk_metadata" where
  "ChunkMetadata3 sl el lang =
     \<lparr>start_line = sl, end_line = el, language = lang, symbols = [], imports' = []\<rparr>"

text \<open>
  A node of the tree-sitter tree: \<^verbatim>\<open>type\<close>, \<^verbatim>\<open>start_byte\<close>, \<^verbatim>\<open>end_byte\<close>, \<^verbatim>\<open>children\<close>;
  \<^verbatim>\<open>node.text\<close> is the node's slice of the buffer.
\<close>

datatype ts_node =
  Node (node_type: string) (start_byte: nat) (end_byte: nat) (node_children: "ts_node list")

definition node_text :: "string \<Rightarrow> ts_node \<Rightarrow> string" where
  "node_text source_code node = span_extract (Span (start_byte node) (end_byte node)) source_code"

text \<open>
  \<^verbatim>\<open>class CodeSplitter\<close>. \<open>token_counter\<close> stands for \<^verbatim>\<open>TokenCounter.count\<close> on the decoded
  bytes (the tokenizer of \<^verbatim>\<open>tiktoken\<close>).
\<close>

record code_splitter =
  token_counter :: "string \<Rightarrow> nat"
  target_chunk_tokens :: nat
  max_chunk_tokens :: nat
  enforce_max_chunk_tokens :: bool
  splitter_language :: string
  coalesce :: nat

text \<open>\<^verbatim>\<open>CodeSplitter(language)\<close> with the defaults of \<^verbatim>\<open>__init__\<close>.\<close>

definition CodeSplitter :: "(string \<Rightarrow> nat) \<Rightarrow> string \<Rightarrow> code_splitter" where
  "CodeSplitter tokenizer lang =
     \<lparr>token_counter = tokenizer, target_chunk_tokens = 300, max_chunk_tokens = 1000,
      enforce_max_chunk_tokens = False, splitter_language = lang, coalesce = 50\<rparr>"

text \<open>\<^verbatim>\<open>TokenCounter.count_chunk\<close>.\<close>

definition count_chunk :: "code_splitter \<Rightarrow> span \<Rightarrow> string \<Rightarrow> nat" where
  "count_chunk self chunk source_code = token_counter self (span_extract chunk source_code)"

subsection \<open>Symbols and imports\<close>

fun extract_symbols :: "string \<Rightarrow> ts_node \<Rightarrow> string list" where
  "extract_symbols source_code (Node ty s e cs) =
     (if ty \<in> set [''function_definition'', ''class_definition''] then
        (case find (\<lambda>child. node_type child = ''identifier'') cs of
           None \<Rightarrow> []
         | Some child \<Rightarrow> [node_text source_code child])
      else [])
     @ concat (map (extract_symbols source_code) cs)"

fun extract_imports :: "string \<Rightarrow> ts_node \<Rightarrow> string list" where
  "extract_imports source_code (Node ty s e cs) =
     (if ty = ''import_statement'' then [node_text source_code (Node ty s e cs)]
      else if ty = ''import_from_statement'' then [node_text source_code (Node ty s e cs)]
      else [])
     @ concat (map (extract_imports source_code) cs)"

subsection \<open>Pass 1: chunk\_node\<close>

text \<open>
  The inner function \<^verbatim>\<open>chunk_node\<close>; \<open>chunk_children\<close> is its loop over
  \<^verbatim>\<open>node.children\<close> with \<^verbatim>\<open>current_chunk\<close>, and returns what the loop and the lines after it
  append to \<^verbatim>\<open>chunks\<close>. A raise is \<open>Inl\<close>.
\<close>

fun chunk_node :: "code_splitter \<Rightarrow> string \<Rightarrow> ts_node \<Rightarrow> py_error + span list"
  and chunk_children ::
    "code_splitter \<Rightarrow> string \<Rightarrow> span \<Rightarrow> ts_node list \<Rightarrow> py_error + span list" where
  "chunk_node self source_code (Node ty s e cs) =
     chunk_children self source_code (Span s s) cs"
| "chunk_children self source_code current_chunk [] =
     (let final_chunk_token_len = count_chunk self current_chunk source_code
      in if final_chunk_token_len > max_chunk_tokens self \<and> enforce_max_chunk_tokens self
         then Inl (MaxChunkLengthExceededError final_chunk_token_len)
         else Inr [current_chunk])"
| "chunk_children self source_code current_chunk (child # rest) =
     (let child_span = Span (start_byte child) (end_byte child);
          child_token_len = count_chunk self child_span source_code;
          child_and_current_token_len =
            count_chunk self child_span source_code + count_chunk self current_chunk source_code
      in if child_token_len > target_chunk_tokens self then
           (if child_token_len > max_chunk_tokens self \<and> enforce_max_chunk_tokens self
            then Inl (MaxChunkLengthExceededError child_token_len)
            else (case chunk_node self source_code child of
                    Inl err \<Rightarrow> Inl err
                  | Inr sub_chunks \<Rightarrow>
                      (case chunk_children self source_code
                              (Span (end_byte child) (end_byte child)) rest of
                         Inl err \<Rightarrow> Inl err
                       | Inr later \<Rightarrow> Inr (current_chunk # sub_chunks @ later))))
         else if child_and_current_token_len > target_chunk_tokens self then
           (if child_and_current_token_len > max_chunk_tokens self \<and> enforce_max_chunk_tokens self
            then Inl (MaxChunkLengthExceededError child_and_current_token_len)
            else (case chunk_children self source_code child_span rest of
                    Inl err \<Rightarrow> Inl err
                  | Inr later \<Rightarrow> Inr (current_chunk # later)))
         else chunk_children self source_code (span_add current_chunk child_span) rest)"

subsection \<open>Pass 2: empty chunks and gaps\<close>

text \<open>\<^verbatim>\<open>[chunk for chunk in chunks if len(chunk) > 0]\<close>.\<close>

fun filter_empty :: "span list \<Rightarrow> py_error + span list" where
  "filter_empty [] = Inr []"
| "filter_empty (chunk # chunks) =
     (case span_len chunk of
        Inl err \<Rightarrow> Inl err
      | Inr n \<Rightarrow>
          (case filter_empty chunks of
             Inl err \<Rightarrow> Inl err
           | Inr kept \<Rightarrow> Inr (if n > 0 then chunk # kept else kept)))"

text \<open>
  \<^verbatim>\<open>prev.end = curr.start\<close> over the neighbouring pairs, then \<^verbatim>\<open>curr.end = len(source_code)\<close>
  for the last chunk.
\<close>

fun align_ends :: "span list \<Rightarrow> nat \<Rightarrow> span list" where
  "align_ends [] n = []"
| "align_ends [curr_chunk] n = [Span (span_start curr_chunk) n]"
| "align_ends (prev_chunk # curr_chunk # rest) n =
     Span (span_start prev_chunk) (span_start curr_chunk) # align_ends (curr_chunk # rest) n"

text \<open>\<^verbatim>\<open>chunks[0].start = 0\<close>, then the loop above.\<close>

definition fill_gaps :: "span list \<Rightarrow> nat \<Rightarrow> span list" where
  "fill_gaps chunks n =
     (case chunks of
        [] \<Rightarrow> []
      | first # rest \<Rightarrow> align_ends (Span 0 (span_end first) # rest) n)"

subsection \<open>Pass 3: combining small chunks\<close>

text \<open>
  The loop over \<^verbatim>\<open>chunks\<close> with \<^verbatim>\<open>aggregated_chunk\<close> and \<^verbatim>\<open>aggregated_chunk_token_len\<close>: the
  spans appended to \<^verbatim>\<open>new_chunks\<close>, and the aggregate left after the loop.
\<close>

fun combine_chunks ::
  "code_splitter \<Rightarrow> string \<Rightarrow> span \<Rightarrow> nat \<Rightarrow> span list \<Rightarrow> span list \<times> span" where
  "combine_chunks self source_code aggregated_chunk aggregated_chunk_token_len [] =
     ([], aggregated_chunk)"
| "combine_chunks self source_code aggregated_chunk aggregated_chunk_token_len (chunk # chunks) =
     (let chunk_token_len = count_chunk self chunk source_code
      in if chunk_token_len > target_chunk_tokens self then
           (let r = combine_chunks self source_code
                      (Span (span_end chunk) (span_end chunk)) 0 chunks
            in (aggregated_chunk # chunk # fst r, snd r))
         else if aggregated_chunk_token_len + chunk_token_len > target_chunk_tokens self then
           (let r = combine_chunks self source_code
                      (Span (span_start chunk) (span_end chunk)) chunk_token_len chunks
            in (aggregated_chunk # fst r, snd r))
         else
           (let aggregated = span_add aggregated_chunk chunk;
                aggregated_len = aggregated_chunk_token_len + chunk_token_len
            in if aggregated_len > coalesce self then
                 (let r = combine_chunks self source_code
                            (Span (span_end chunk) (span_end chunk)) 0 chunks
                  in (aggregated # fst r, snd r))
               else combine_chunks self source_code aggregated aggregated_len chunks))"

text \<open>The loop, then \<^verbatim>\<open>if len(aggregated_chunk) > 0: new_chunks.append(aggregated_chunk)\<close>.\<close>

definition combine_small_chunks ::
  "code_splitter \<Rightarrow> string \<Rightarrow> span list \<Rightarrow> py_error + span list" where
  "combine_small_chunks self source_code chunks =
     (let r = combine_chunks self source_code (Span 0 0) 0 chunks
      in case span_len (snd r) of
           Inl err \<Rightarrow> Inl err
         | Inr n \<Rightarrow> Inr (if n > 0 then fst r @ [snd r] else fst r))"

subsection \<open>Line numbers and metadata\<close>

text \<open>\<^verbatim>\<open>re.split(b"(?<=\n)", byte_str)\<close>: the lines, each with its newline, and the rest.\<close>

fun split_and_keep_newline :: "string \<Rightarrow> string list" where
  "split_and_keep_newline [] = [[]]"
| "split_and_keep_newline (c # cs) =
     (if c = CHR 0x0A then [c] # split_and_keep_newline cs
      else (case split_and_keep_newline cs of
              [] \<Rightarrow> [[c]]
            | line # lines \<Rightarrow> (c # line) # lines))"

text \<open>
  The loop of \<^verbatim>\<open>get_line_number\<close>; \<open>line_number\<close> is the number \<^verbatim>\<open>enumerate\<close> gives the
  next line. After the last line the function returns the number of that line.
\<close>

fun line_number_loop :: "nat \<Rightarrow> nat \<Rightarrow> nat \<Rightarrow> string list \<Rightarrow> nat" where
  "line_number_loop index total_chars line_number [] = line_number - 1"
| "line_number_loop index total_chars line_number (line # lines) =
     (if total_chars + length line > index then line_number - 1
      else line_number_loop index (total_chars + length line) (line_number + 1) lines)"

definition get_line_number :: "nat \<Rightarrow> string \<Rightarrow> nat" where
  "get_line_number index source_code =
     line_number_loop index 0 1 (split_and_keep_newline source_code)"

text \<open>
  The last loop of \<^verbatim>\<open>chunk_tree\<close>. \<open>descendant\<close> stands for tree-sitter's
  \<^verbatim>\<open>root_node.descendant_for_byte_range\<close>.
\<close>

definition chunk_with_metadata ::
  "code_splitter \<Rightarrow> (nat \<Rightarrow> nat \<Rightarrow> ts_node option) \<Rightarrow> string \<Rightarrow> span \<Rightarrow> span \<times> chunk_metadata" where
  "chunk_with_metadata self descendant source_code chunk =
     (chunk,
      \<lparr>start_line = get_line_number (span_start chunk) source_code,
       end_line = get_line_number (span_end chunk) source_code,
       language = splitter_language self,
       symbols = (case descendant (span_start chunk) (span_end chunk) of
                    None \<Rightarrow> []
                  | Some covering \<Rightarrow> extract_symbols source_code covering),
       imports' = (case descendant (span_start chunk) (span_end chunk) of
                    None \<Rightarrow> []
                  | Some covering \<Rightarrow> extract_imports source_code covering)\<rparr>)"

subsection \<open>chunk\_tree\<close>

text \<open>The chunks of Pass 1 after \<^verbatim>\<open># Filter empty chunks\<close>.\<close>

definition nonempty_chunks :: "code_splitter \<Rightarrow> string \<Rightarrow> ts_node \<Rightarrow> py_error + span list" where
  "nonempty_chunks self source_code root_node =
     (case chunk_node self source_code root_node of
        Inl err \<Rightarrow> Inl err
      | Inr chunks \<Rightarrow> filter_empty chunks)"

definition chunk_tree ::
  "code_splitter \<Rightarrow> (ts_node \<Rightarrow> nat \<Rightarrow> nat \<Rightarrow> ts_node option) \<Rightarrow> ts_node \<Rightarrow> string \<Rightarrow>
   py_error + (span \<times> chunk_metadata) list" where
  "chunk_tree self descendant_for_byte_range root_node source_code =
     (case nonempty_chunks self source_code root_node of
        Inl err \<Rightarrow> Inl err
      | Inr chunks \<Rightarrow>
          if length chunks = 0 then Inr []
          else if length chunks < 2 then
            (case span_len (hd chunks) of
               Inl err \<Rightarrow> Inl err
             | Inr n \<Rightarrow> Inr [(Span 0 n, ChunkMetadata3 0 1 (splitter_language self))])
          else
            (case combine_small_chunks self source_code (fill_gaps chunks (length source_code)) of
               Inl err \<Rightarrow> Inl err
             | Inr new_chunks \<Rightarrow>
                 Inr (map (chunk_with_metadata self (descendant_for_byte_range root_node) source_code)
                        new_chunks)))"

subsection \<open>split\_text\_with\_metadata\<close>

text \<open>\<^verbatim>\<open>s.split("\n")\<close>.\<close>

fun split_lines :: "string \<Rightarrow> string list" where
  "split_lines [] = [[]]"
| "split_lines (c # cs) =
     (if c = CHR 0x0A then [] # split_lines cs
      else (case split_lines cs of
              [] \<Rightarrow> [[c]]
            | line # lines \<Rightarrow> (c # line) # lines))"

text \<open>\<^verbatim>\<open>"\n".join(selected_lines)\<close>.\<close>

fun join_lines :: "string list \<Rightarrow> string" where
  "join_lines [] = []"
| "join_lines [line] = line"
| "join_lines (line # lines) = line @ [CHR 0x0A] @ join_lines lines"

text \<open>\<^verbatim>\<open>Span.extract_lines\<close>: the span's offsets are used as line numbers.\<close>

definition extract_lines :: "span \<Rightarrow> string \<Rightarrow> string" where
  "extract_lines chunk s =
     (let lines = split_lines s;
          selected_lines = take (span_end chunk - span_start chunk) (drop (span_start chunk) lines);
          joined = join_lines selected_lines
      in if span_end chunk < length lines then joined @ [CHR 0x0A] else joined)"

text \<open>
  \<open>parser\<close> stands for \<^verbatim>\<open>_get_language()\<close> with the compiled grammar and
  \<^verbatim>\<open>parser.parse\<close>: the error raised while the parser is set up, or the function from a
  buffer to the root node of its tree. \<^verbatim>\<open>_get_language\<close> refuses every language but
  \<^verbatim>\<open>python\<close> itself.
\<close>

definition get_language ::
  "code_splitter \<Rightarrow> (py_error + (string \<Rightarrow> ts_node)) \<Rightarrow> py_error + (string \<Rightarrow> ts_node)" where
  "get_language self parser =
     (if splitter_language self = ''python'' then parser else Inl ValueError)"

definition split_text_with_metadata ::
  "code_splitter \<Rightarrow> (py_error + (string \<Rightarrow> ts_node)) \<Rightarrow>
   (ts_node \<Rightarrow> nat \<Rightarrow> nat \<Rightarrow> ts_node option) \<Rightarrow> string \<Rightarrow>
   py_error + (string \<times> chunk_metadata) list" where
  "split_text_with_metadata self parser descendant_for_byte_range text_in =
     (case get_language self parser of
        Inl err \<Rightarrow> Inl err
      | Inr parse \<Rightarrow>
          (let root_node = parse text_in
           in if node_children root_node = []
                 \<or> node_type (hd (node_children root_node)) \<noteq> ''ERROR''
              then (case chunk_tree self descendant_for_byte_range root_node text_in of
                      Inl err \<Rightarrow> Inl err
                    | Inr chunks_with_metadata \<Rightarrow>
                        Inr (map (\<lambda>chunk. (extract_lines (fst chunk) text_in, snd chunk))
                               chunks_with_metadata))
              else Inl ValueError))"

section \<open>hybrid\_search.py\<close>

subsection \<open>Points of the collection\<close>

type_synonym dense_vector = "real list"

type_synonym sparse_vector = "(nat \<times> real) list"

record point_payload =
  payload_path :: string
  payload_hash :: "string option"
  payload_chunk_text :: string
  payload_metadata :: chunk_metadata

text \<open>\<^verbatim>\<open>PointStruct\<close>: the id, the payload and the two named vectors.\<close>

record point_struct =
  point_id :: string
  payload :: point_payload
  text_sparse :: sparse_vector
  text_dense :: dense_vector

text \<open>A search result of the store: the id and payload of a point.\<close>

record scored_point =
  result_id :: string
  result_payload :: point_payload

text \<open>
  What the repository calls and does not implement: SHA-256, the tokenizer, the parser
  with its \<^verbatim>\<open>descendant_for_byte_range\<close>, the two embedding models, the extension table
  of \<^verbatim>\<open>constants.py\<close>, and the two searches of \<^verbatim>\<open>search_batch\<close> (the points of the
  collection, the query vector and the limit to the results in rank order).
\<close>

record externals =
  sha256_hex :: "string \<Rightarrow> string"
  tokenizer :: "string \<Rightarrow> nat"
  python_parser :: "py_error + (string \<Rightarrow> ts_node)"
  descendant_for_byte_range :: "ts_node \<Rightarrow> nat \<Rightarrow> nat \<Rightarrow> ts_node option"
  sparse_embed :: "string \<Rightarrow> sparse_vector"
  dense_embed :: "string \<Rightarrow> dense_vector"
  EXTENSION_TO_TREE_SITTER_LANGUAGE :: "(string \<times> string) list"
  search_dense :: "point_struct list \<Rightarrow> dense_vector \<Rightarrow> nat \<Rightarrow> scored_point list"
  search_sparse :: "point_struct list \<Rightarrow> sparse_vector \<Rightarrow> nat \<Rightarrow> scored_point list"

subsection \<open>Reciprocal rank fusion\<close>

text \<open>
  An entry of the dict \<^verbatim>\<open>ranks\<close>; a rank is a position from 1 or \<^verbatim>\<open>float("inf")\<close>. The
  dict is an association list in insertion order. Scores are computed in exact
  arithmetic where the source computes in floating point.
\<close>

record rank_item =
  item_result :: scored_point
  dense_rank :: enat
  sparse_rank :: enat

text \<open>The first loop of \<^verbatim>\<open>_combine_results\<close>, over \<^verbatim>\<open>enumerate(dense_results, 1)\<close>.\<close>

fun rank_dense_results ::
  "nat \<Rightarrow> scored_point list \<Rightarrow> (string \<times> rank_item) list \<Rightarrow> (string \<times> rank_item) list" where
  "rank_dense_results rank [] ranks = ranks"
| "rank_dense_results rank (result # results) ranks =
     rank_dense_results (rank + 1) results
       (case map_of ranks (result_id result) of
          None \<Rightarrow>
            AList.update (result_id result)
              \<lparr>item_result = result, dense_rank = enat rank, sparse_rank = \<infinity>\<rparr> ranks
        | Some item \<Rightarrow>
            AList.update (result_id result) (item\<lparr>dense_rank := enat rank\<rparr>) ranks)"

text \<open>The second loop, over \<^verbatim>\<open>enumerate(sparse_results, 1)\<close>.\<close>

fun rank_sparse_results ::
  "nat \<Rightarrow> scored_point list \<Rightarrow> (string \<times> rank_item) list \<Rightarrow> (string \<times> rank_item) list" where
  "rank_sparse_results rank [] ranks = ranks"
| "rank_sparse_results rank (result # results) ranks =
     rank_sparse_results (rank + 1) results
       (case map_of ranks (result_id result) of
          None \<Rightarrow>
            AList.update (result_id result)
              \<lparr>item_result = result, dense_rank = \<infinity>, sparse_rank = enat rank\<rparr> ranks
        | Some item \<Rightarrow>
            AList.update (result_id result) (item\<lparr>sparse_rank := enat rank\<rparr>) ranks)"

text \<open>\<^verbatim>\<open>1 / (alpha + rank)\<close>: zero at rank infinity; a zero divisor raises.\<close>

definition reciprocal_rank :: "real \<Rightarrow> enat \<Rightarrow> py_error + real" where
  "reciprocal_rank alpha rank =
     (case rank of
        enat n \<Rightarrow> if alpha + real n = 0 then Inl ZeroDivisionError else Inr (1 / (alpha + real n))
      | \<infinity> \<Rightarrow> Inr 0)"

definition rrf_score :: "real \<Rightarrow> rank_item \<Rightarrow> py_error + real" where
  "rrf_score alpha item =
     (case reciprocal_rank alpha (dense_rank item) of
        Inl err \<Rightarrow> Inl err
      | Inr d \<Rightarrow>
          (case reciprocal_rank alpha (sparse_rank item) of
             Inl err \<Rightarrow> Inl err
           | Inr s \<Rightarrow> Inr (d + s)))"

text \<open>The third loop: \<^verbatim>\<open>results_with_scores\<close>.\<close>

fun score_items :: "real \<Rightarrow> rank_item list \<Rightarrow> py_error + (scored_point \<times> real) list" where
  "score_items alpha [] = Inr []"
| "score_items alpha (item # items) =
     (case rrf_score alpha item of
        Inl err \<Rightarrow> Inl err
      | Inr score \<Rightarrow>
          (case score_items alpha items of
             Inl err \<Rightarrow> Inl err
           | Inr scored \<Rightarrow> Inr ((item_result item, score) # scored)))"

text \<open>
  \<^verbatim>\<open>_combine_results\<close>; \<^verbatim>\<open>sorted(..., key=lambda x: x[1], reverse=True)\<close> is the stable sort
  by descending score.
\<close>

definition combine_results ::
  "scored_point list \<Rightarrow> scored_point list \<Rightarrow> real \<Rightarrow> py_error + (scored_point \<times> real) list" where
  "combine_results dense_results sparse_results alpha =
     (let ranks = rank_sparse_results 1 sparse_results (rank_dense_results 1 dense_results [])
      in case score_items alpha (map snd ranks) of
           Inl err \<Rightarrow> Inl err
         | Inr results_with_scores \<Rightarrow> Inr (sort_key (\<lambda>x. - snd x) results_with_scores))"

subsection \<open>search\<close>

record search_hit =
  hit_path :: string
  hit_score :: real
  hit_hash :: "string option"

definition search ::
  "externals \<Rightarrow> point_struct list \<Rightarrow> string \<Rightarrow> nat \<Rightarrow> py_error + search_hit list" where
  "search ext collection query limit =
     (let query_sparse = sparse_embed ext query;
          query_dense = dense_embed ext query;
          dense_results = search_dense ext collection query_dense limit;
          sparse_results = search_sparse ext collection query_sparse limit
      in case combine_results dense_results sparse_results 60 of
           Inl err \<Rightarrow> Inl err
         | Inr combined_results \<Rightarrow>
             Inr (map (\<lambda>rs. \<lparr>hit_path = payload_path (result_payload (fst rs)),
                               hit_score = snd rs,
                               hit_hash = payload_hash (result_payload (fst rs))\<rparr>)
                    combined_results))"

subsection \<open>Paths and extensions\<close>

text \<open>\<^verbatim>\<open>os.path.join(a, b)\<close> on POSIX.\<close>

definition os_path_join :: "string \<Rightarrow> string \<Rightarrow> string" where
  "os_path_join a b =
     (if b \<noteq> [] \<and> hd b = CHR ''/'' then b
      else if a = [] \<or> last a = CHR ''/'' then a @ b
      else a @ ''/'' @ b)"

text \<open>The path string of the components \<open>comps\<close> below \<open>root_path\<close>.\<close>

definition path_string :: "string \<Rightarrow> string list \<Rightarrow> string" where
  "path_string root_path comps = foldl os_path_join root_path comps"

text \<open>\<^verbatim>\<open>os.path.relpath(file_path, self.root_path)\<close> as a string.\<close>

fun join_sep :: "string list \<Rightarrow> string" where
  "join_sep [] = []"
| "join_sep [part] = part"
| "join_sep (part # parts) = part @ ''/'' @ join_sep parts"

definition relative_path_string :: "string list \<Rightarrow> string" where
  "relative_path_string comps = join_sep (relpath_parts comps)"

text \<open>
  \<^verbatim>\<open>os.path.splitext(file_path)[1]\<close>: from the last dot of the last path component, unless
  only dots stand before it in that component.
\<close>

definition splitext_ext :: "string \<Rightarrow> string" where
  "splitext_ext file_path =
     (let name = rev (takeWhile (\<lambda>c. c \<noteq> CHR ''/'') (rev file_path));
          suffix_rev = takeWhile (\<lambda>c. c \<noteq> CHR ''.'') (rev name);
          upto_dot_rev = dropWhile (\<lambda>c. c \<noteq> CHR ''.'') (rev name)
      in if upto_dot_rev = [] then []
         else if list_all (\<lambda>c. c = CHR ''.'') (tl upto_dot_rev) then []
         else CHR ''.'' # rev suffix_rev)"

text \<open>\<^verbatim>\<open>str(n)\<close> for the chunk index in a point id.\<close>

fun str_nat :: "nat \<Rightarrow> string" where
  "str_nat n =
     (if n < 10 then [''0123456789'' ! n]
      else str_nat (n div 10) @ [''0123456789'' ! (n mod 10)])"

declare str_nat.simps [simp del]

subsection \<open>update\_index\<close>

text \<open>
  \<^verbatim>\<open>class HybridCodeSearch\<close>: the root path, the Merkle tree, the cache of splitters by
  language, and the points of the collection \<^verbatim>\<open>code-index\<close> in the store.
\<close>

record hybrid_code_search =
  root_path :: string
  merkle_tree :: merkle_node
  code_splitters :: "(string \<times> code_splitter) list"
  collection :: "point_struct list"

text \<open>\<^verbatim>\<open>_get_code_splitter(file_path)\<close>: the searcher after the call, and the splitter or the raise.\<close>

definition get_code_splitter ::
  "externals \<Rightarrow> string \<Rightarrow> hybrid_code_search \<Rightarrow> hybrid_code_search \<times> (py_error + code_splitter)" where
  "get_code_splitter ext file_path self =
     (case map_of (EXTENSION_TO_TREE_SITTER_LANGUAGE ext) (splitext_ext file_path) of
        None \<Rightarrow> (self, Inl ValueError)
      | Some lang \<Rightarrow>
          (case map_of (code_splitters self) lang of
             None \<Rightarrow>
               (self\<lparr>code_splitters :=
                   AList.update lang (CodeSplitter (tokenizer ext) lang) (code_splitters self)\<rparr>,
                Inr (CodeSplitter (tokenizer ext) lang))
           | Some splitter \<Rightarrow> (self, Inr splitter)))"

text \<open>\<^verbatim>\<open>client.delete\<close> with the filter on the payload's \<^verbatim>\<open>path\<close>.\<close>

definition delete_by_path :: "string \<Rightarrow> point_struct list \<Rightarrow> point_struct list" where
  "delete_by_path relative_path points =
     filter (\<lambda>p. payload_path (payload p) \<noteq> relative_path) points"

text \<open>\<^verbatim>\<open>client.upsert\<close>: a point replaces the stored point of its id, or is added.\<close>

fun upsert_point :: "point_struct \<Rightarrow> point_struct list \<Rightarrow> point_struct list" where
  "upsert_point p [] = [p]"
| "upsert_point p (q # qs) =
     (if point_id q = point_id p then p # qs else q # upsert_point p qs)"

definition upsert :: "point_struct list \<Rightarrow> point_struct list \<Rightarrow> point_struct list" where
  "upsert points stored = fold upsert_point points stored"

text \<open>The loop of \<^verbatim>\<open>update_index\<close> over \<^verbatim>\<open>enumerate(chunks)\<close>.\<close>

fun make_points ::
  "externals \<Rightarrow> string \<Rightarrow> string option \<Rightarrow> nat \<Rightarrow> (string \<times> chunk_metadata) list \<Rightarrow> point_struct list" where
  "make_points ext relative_path file_hash chunk_idx [] = []"
| "make_points ext relative_path file_hash chunk_idx (chunk # chunks) =
     \<lparr>point_id = relative_path @ ''_'' @ str_nat chunk_idx,
      payload = \<lparr>payload_path = relative_path, payload_hash = file_hash,
                 payload_chunk_text = fst chunk, payload_metadata = snd chunk\<rparr>,
      text_sparse = sparse_embed ext (fst chunk),
      text_dense = dense_embed ext (fst chunk)\<rparr>
     # make_points ext relative_path file_hash (chunk_idx + 1) chunks"

text \<open>
  \<^verbatim>\<open>update_index(file_path)\<close> with the filesystem as it is at the call: the searcher after
  the call, and the exception, if one left the method. The file's bytes stand for its
  text.
\<close>

definition update_index ::
  "externals \<Rightarrow> fs_entry \<Rightarrow> string list \<Rightarrow> hybrid_code_search \<Rightarrow>
   hybrid_code_search \<times> py_error option" where
  "update_index ext fs comps self =
     (case fs_lookup comps fs of
        None \<Rightarrow> (self, None)
      | Some entry \<Rightarrow>
          (let file_path = path_string (root_path self) comps
           in if splitext_ext file_path \<notin> fst ` set (EXTENSION_TO_TREE_SITTER_LANGUAGE ext)
              then (self, None)
              else
                (case get_code_splitter ext file_path self of
                   (self1, Inl err) \<Rightarrow> (self1, Some err)
                 | (self1, Inr splitter) \<Rightarrow>
                     (let updated = update_file (sha256_hex ext) fs comps (merkle_tree self1);
                          self2 = self1\<lparr>merkle_tree := fst updated\<rparr>
                      in case snd updated of
                           Some err \<Rightarrow> (self2, Some err)
                         | None \<Rightarrow>
                             (case entry of
                                Dir entries \<Rightarrow> (self2, Some IsADirectoryError)
                              | File content \<Rightarrow>
                                  (case split_text_with_metadata splitter (python_parser ext)
                                          (descendant_for_byte_range ext) content of
                                     Inl err \<Rightarrow> (self2, Some err)
                                   | Inr chunks \<Rightarrow>
                                       (let relative_path = relative_path_string comps;
                                            deleted = delete_by_path relative_path (collection self2);
                                            points = make_points ext relative_path
                                                       (get_node_hash fs comps (merkle_tree self2)) 0 chunks
                                        in (self2\<lparr>collection :=
                                                     (if points \<noteq> [] then upsert points deleted
                                                      else deleted)\<rparr>,
                                            None))))))))"

section \<open>watcher.py\<close>

text \<open>
  \<^verbatim>\<open>class CodeIndexEventHandler\<close>. The searcher is any state \<open>'s\<close>, and \<open>update\<close> is what
  \<^verbatim>\<open>self.searcher.update_index(file_path)\<close> inside its \<^verbatim>\<open>try\<close> does to it (an exception is
  printed and dropped). The pending set is kept as a list without repetitions; the
  time of \<^verbatim>\<open>time.time()\<close> is an argument.
\<close>

record 's code_index_event_handler =
  searcher :: 's
  pending_updates :: "string list"
  debounce_timer :: "real option"
  debounce_delay :: real

definition CodeIndexEventHandler :: "'s \<Rightarrow> 's code_index_event_handler" where
  "CodeIndexEventHandler s =
     \<lparr>searcher = s, pending_updates = [], debounce_timer = None, debounce_delay = 1\<rparr>"

datatype event_kind = Created | Modified | Deleted | Moved

record fs_event =
  event_kind :: event_kind
  src_path :: string
  dest_path :: string
  is_directory :: bool

definition should_process_file :: "(string \<times> string) list \<Rightarrow> string \<Rightarrow> bool" where
  "should_process_file table file_path = (splitext_ext file_path \<in> fst ` set table)"

definition process_updates ::
  "(string \<Rightarrow> 's \<Rightarrow> 's) \<Rightarrow> 's code_index_event_handler \<Rightarrow> 's code_index_event_handler" where
  "process_updates update self =
     self\<lparr>searcher := fold update (pending_updates self) (searcher self),
          pending_updates := []\<rparr>"

definition schedule_update ::
  "(string \<Rightarrow> 's \<Rightarrow> 's) \<Rightarrow> string \<Rightarrow> real \<Rightarrow> 's code_index_event_handler \<Rightarrow>
   's code_index_event_handler" where
  "schedule_update update file_path current_time self =
     (let self1 = self\<lparr>pending_updates := List.insert file_path (pending_updates self)\<rparr>
      in if debounce_timer self1 = None
            \<or> current_time - the (debounce_timer self1) \<ge> debounce_delay self1
         then (process_updates update self1)\<lparr>debounce_timer := Some current_time\<rparr>
         else self1)"

text \<open>\<^verbatim>\<open>on_created\<close>, \<^verbatim>\<open>on_modified\<close>, \<^verbatim>\<open>on_deleted\<close> and \<^verbatim>\<open>on_moved\<close>, by the kind of the event.\<close>

definition on_event ::
  "(string \<times> string) list \<Rightarrow> (string \<Rightarrow> 's \<Rightarrow> 's) \<Rightarrow> fs_event \<Rightarrow> real \<Rightarrow>
   's code_index_event_handler \<Rightarrow> 's code_index_event_handler" where
  "on_event table update event current_time self =
     (if is_directory event then self
      else (case event_kind event of
              Created \<Rightarrow>
                if should_process_file table (src_path event)
                then schedule_update update (src_path event) current_time self else self
            | Modified \<Rightarrow>
                if should_process_file table (src_path event)
                then schedule_update update (src_path event) current_time self else self
            | Deleted \<Rightarrow> self
            | Moved \<Rightarrow>
                if should_process_file table (dest_path event)
                then schedule_update update (dest_path event) current_time self else self))"

text \<open>The events of a list, each with the time of its arrival, in order.\<close>

fun on_events ::
  "(string \<times> string) list \<Rightarrow> (string \<Rightarrow> 's \<Rightarrow> 's) \<Rightarrow> (fs_event \<times> real) list \<Rightarrow>
   's code_index_event_handler \<Rightarrow> 's code_index_event_handler" where
  "on_events table update [] self = self"
| "on_events table update (e # es) self =
     on_events table update es (on_event table update (fst e) (snd e) self)"

section \<open>Notions of the specification\<close>

subsection \<open>Chunker\<close>

text \<open>
  A syntax tree as a parser gives it: a node ends no earlier than it starts, and the
  children of a node lie inside it, in order, without overlap.
\<close>

fun wf_node :: "ts_node \<Rightarrow> bool"
  and wf_children :: "nat \<Rightarrow> nat \<Rightarrow> ts_node list \<Rightarrow> bool" where
  "wf_node (Node ty s e cs) = (s \<le> e \<and> wf_children s e cs)"
| "wf_children lo hi [] = (lo \<le> hi)"
| "wf_children lo hi (child # rest) =
     (lo \<le> start_byte child \<and> wf_node child \<and> wf_children (end_byte child) hi rest)"

text \<open>A span that holds at least one byte.\<close>

definition nonempty_span :: "span \<Rightarrow> bool" where
  "nonempty_span c = (span_start c < span_end c)"

text \<open>Spans in order inside \<open>[lo, hi]\<close>, none overlapping the next.\<close>

fun ordered_spans :: "nat \<Rightarrow> nat \<Rightarrow> span list \<Rightarrow> bool" where
  "ordered_spans lo hi [] = (lo \<le> hi)"
| "ordered_spans lo hi (c # cs) =
     (lo \<le> span_start c \<and> span_start c \<le> span_end c \<and> ordered_spans (span_end c) hi cs)"

text \<open>Each span starts where the one before ends, from \<open>lo\<close> to \<open>hi\<close>; a span may be empty.\<close>

fun chain :: "nat \<Rightarrow> nat \<Rightarrow> span list \<Rightarrow> bool" where
  "chain lo hi [] = (lo = hi)"
| "chain lo hi (c # cs) = (span_start c = lo \<and> lo \<le> span_end c \<and> chain (span_end c) hi cs)"

text \<open>
  The spans, in order, cover \<open>[lo, hi)\<close> exactly: no gap, no overlap, no empty span.
\<close>

fun tiles :: "nat \<Rightarrow> nat \<Rightarrow> span list \<Rightarrow> bool" where
  "tiles lo hi [] = (lo = hi)"
| "tiles lo hi (c # cs) = (span_start c = lo \<and> lo < span_end c \<and> tiles (span_end c) hi cs)"

subsection \<open>Merkle tree\<close>

text \<open>
  The same directory contents under two listings: the same names with the same files
  and subdirectories, the entries of each directory in any order.
\<close>

inductive same_contents :: "fs_entry \<Rightarrow> fs_entry \<Rightarrow> bool" where
  same_file: "same_contents (File content) (File content)"
| same_dir:
    "list_all2 (\<lambda>a b. fst a = fst b \<and> same_contents (snd a) (snd b)) xs zs \<Longrightarrow>
     mset zs = mset ys \<Longrightarrow> same_contents (Dir xs) (Dir ys)"

subsection \<open>Rank fusion\<close>

text \<open>
  The rank of a point id in a result list whose first rank is \<open>n\<close>: the position of its
  last occurrence, infinite when the id is not in the list.
\<close>

fun rank_from :: "nat \<Rightarrow> string \<Rightarrow> scored_point list \<Rightarrow> enat" where
  "rank_from n i [] = \<infinity>"
| "rank_from n i (r # rs) =
     (case rank_from (n + 1) i rs of
        \<infinity> \<Rightarrow> if result_id r = i then enat n else \<infinity>
      | enat m \<Rightarrow> enat m)"

text \<open>\<open>1/(\<alpha> + r)\<close> in exact arithmetic, zero at rank infinity.\<close>

definition reciprocal :: "real \<Rightarrow> enat \<Rightarrow> real" where
  "reciprocal alpha rank = (case rank of enat n \<Rightarrow> 1 / (alpha + real n) | \<infinity> \<Rightarrow> 0)"

text \<open>\<open>1/(\<alpha> + r_dense) + 1/(\<alpha> + r_sparse)\<close> for a point id and the two result lists.\<close>

definition fused_score :: "real \<Rightarrow> scored_point list \<Rightarrow> scored_point list \<Rightarrow> string \<Rightarrow> real" where
  "fused_score alpha dense_results sparse_results i =
     reciprocal alpha (rank_from 1 i dense_results) + reciprocal alpha (rank_from 1 i sparse_results)"

text \<open>The dict \<^verbatim>\<open>ranks\<close> of \<^verbatim>\<open>_combine_results\<close> after its two loops.\<close>

definition fused_ranks :: "scored_point list \<Rightarrow> scored_point list \<Rightarrow> (string \<times> rank_item) list" where
  "fused_ranks dense_results sparse_results =
     rank_sparse_results 1 sparse_results (rank_dense_results 1 dense_results [])"

text \<open>The pair the third loop of \<^verbatim>\<open>_combine_results\<close> appends for an entry, in exact arithmetic.\<close>

definition scored_item :: "real \<Rightarrow> rank_item \<Rightarrow> scored_point \<times> real" where
  "scored_item alpha item =
     (item_result item, reciprocal alpha (dense_rank item) + reciprocal alpha (sparse_rank item))"

text \<open>The dict \<^verbatim>\<open>search\<close> returns for a fused result.\<close>

definition hit_of :: "scored_point \<times> real \<Rightarrow> search_hit" where
  "hit_of rs = \<lparr>hit_path = payload_path (result_payload (fst rs)), hit_score = snd rs,
               hit_hash = payload_hash (result_payload (fst rs))\<rparr>"

subsection \<open>Watcher\<close>

text \<open>A searcher that only records the paths \<^verbatim>\<open>update_index\<close> is called with.\<close>

definition record_call :: "string \<Rightarrow> string list \<Rightarrow> string list" where
  "record_call file_path calls = calls @ [file_path]"

text \<open>A \<^verbatim>\<open>modify\<close> event on a file.\<close>

definition modify_event :: "string \<Rightarrow> fs_event" where
  "modify_event file_path =
     \<lparr>event_kind = Modified, src_path = file_path, dest_path = [], is_directory = False\<rparr>"

text \<open>
  Three \<^verbatim>\<open>modify\<close> events on one path, at the times \<open>t1\<close>, \<open>t2\<close> and \<open>t3\<close>.
\<close>

definition burst :: "string \<Rightarrow> real \<Rightarrow> real \<Rightarrow> real \<Rightarrow> (fs_event \<times> real) list" where
  "burst p t1 t2 t3 = [(modify_event p, t1), (modify_event p, t2), (modify_event p, t3)]"

section \<open>Example inputs\<close>

subsection \<open>Stand-ins for the libraries\<close>

text \<open>
  A stand-in for SHA-256 to run the definitions on concrete inputs: injective, and never
  the empty string of \<^verbatim>\<open>MerkleNode("")\<close>.
\<close>

definition tag_digest :: "string \<Rightarrow> string" where
  "tag_digest bytes = CHR ''#'' # bytes"

text \<open>
  A stand-in for \<^verbatim>\<open>descendant_for_byte_range\<close>: the deepest node on the leftmost path of
  children that cover the byte range. The stand-in for the tokenizer is \<open>length\<close>, one
  token for every byte.
\<close>

fun covering_node :: "ts_node \<Rightarrow> nat \<Rightarrow> nat \<Rightarrow> ts_node option"
  and covering_child :: "ts_node list \<Rightarrow> nat \<Rightarrow> nat \<Rightarrow> ts_node option" where
  "covering_node (Node ty s e cs) lo hi =
     (case covering_child cs lo hi of
        None \<Rightarrow> Some (Node ty s e cs)
      | Some found \<Rightarrow> Some found)"
| "covering_child [] lo hi = None"
| "covering_child (child # rest) lo hi =
     (if start_byte child \<le> lo \<and> hi \<le> end_byte child then covering_node child lo hi
      else covering_child rest lo hi)"

text \<open>The extension table with the one entry the reference configuration needs.\<close>

definition py_table :: "(string \<times> string) list" where
  "py_table = [(''.py'', ''python'')]"

text \<open>A parser whose tree for every buffer starts with an \<^verbatim>\<open>ERROR\<close> node.\<close>

definition error_parse :: "string \<Rightarrow> ts_node" where
  "error_parse text_in =
     Node ''module'' 0 (length text_in) [Node ''ERROR'' 0 (length text_in) []]"

subsection \<open>Directories\<close>

text \<open>Two listings of one directory, in different orders at both levels.\<close>

definition listing_one :: fs_entry where
  "listing_one =
     Dir [(''a'', File ''1''), (''b'', Dir [(''x'', File ''2''), (''y'', File ''3'')])]"

definition listing_two :: fs_entry where
  "listing_two =
     Dir [(''b'', Dir [(''y'', File ''3''), (''x'', File ''2'')]), (''a'', File ''1'')]"

text \<open>A file three levels down, before and after its bytes change.\<close>

definition nested_old :: fs_entry where
  "nested_old = Dir [(''a'', Dir [(''b'', Dir [(''x'', File ''old'')])])]"

definition nested_new :: fs_entry where
  "nested_new = Dir [(''a'', Dir [(''b'', Dir [(''x'', File ''new'')])])]"

subsection \<open>Source buffers and their trees\<close>

text \<open>
  The file \<^verbatim>\<open>import os\nimport sys\n\<close> and its tree under the Python grammar: the two
  statements end before their newlines.
\<close>

definition import_source :: string where
  "import_source = ''import os'' @ [CHR 0x0A] @ ''import sys'' @ [CHR 0x0A]"

definition import_tree :: ts_node where
  "import_tree =
     Node ''module'' 0 21
       [Node ''import_statement'' 0 9
          [Node ''import'' 0 6 [], Node ''dotted_name'' 7 9 [Node ''identifier'' 7 9 []]],
        Node ''import_statement'' 10 20
          [Node ''import'' 10 16 [], Node ''dotted_name'' 17 20 [Node ''identifier'' 17 20 []]]]"

text \<open>A buffer that holds one newline, and its tree: a root without children.\<close>

definition blank_source :: string where
  "blank_source = [CHR 0x0A]"

definition blank_tree :: ts_node where
  "blank_tree = Node ''module'' 0 1 []"

text \<open>
  The file \<^verbatim>\<open>a\<close>, \<open>k\<close> newlines, \<^verbatim>\<open>b\<close>, its tree, and a splitter with target 1 and an
  enforced maximum of 2 tokens.
\<close>

definition gap_source :: "nat \<Rightarrow> string" where
  "gap_source k = ''a'' @ replicate k (CHR 0x0A) @ ''b''"

definition gap_tree :: "nat \<Rightarrow> ts_node" where
  "gap_tree k =
     Node ''module'' 0 (k + 2)
       [Node ''expression_statement'' 0 1 [Node ''identifier'' 0 1 []],
        Node ''expression_statement'' (k + 1) (k + 2) [Node ''identifier'' (k + 1) (k + 2) []]]"

definition tight_splitter :: "(string \<Rightarrow> nat) \<Rightarrow> code_splitter" where
  "tight_splitter tok =
     \<lparr>token_counter = tok, target_chunk_tokens = 1, max_chunk_tokens = 2,
      enforce_max_chunk_tokens = True, splitter_language = ''python'', coalesce = 50\<rparr>"

subsection \<open>Stores and searchers\<close>

text \<open>
  A store of points named after their files, with stand-in rankings: the dense search
  ranks the points in stored order, the sparse search in reverse order, and each
  returns the first \<open>limit\<close> of them.
\<close>

definition as_result :: "point_struct \<Rightarrow> scored_point" where
  "as_result p = \<lparr>result_id = point_id p, result_payload = payload p\<rparr>"

definition demo_point :: "string \<Rightarrow> point_struct" where
  "demo_point name =
     \<lparr>point_id = name @ ''_0'',
      payload = \<lparr>payload_path = name, payload_hash = Some (tag_digest name),
                 payload_chunk_text = name, payload_metadata = ChunkMetadata3 0 1 ''python''\<rparr>,
      text_sparse = [], text_dense = []\<rparr>"

definition ranking_externals :: externals where
  "ranking_externals =
     \<lparr>sha256_hex = tag_digest, tokenizer = length, python_parser = Inl ValueError,
      descendant_for_byte_range = covering_node,
      sparse_embed = (\<lambda>t. []), dense_embed = (\<lambda>t. []),
      EXTENSION_TO_TREE_SITTER_LANGUAGE = py_table,
      search_dense = (\<lambda>points v limit. take limit (map as_result points)),
      search_sparse = (\<lambda>points v limit. take limit (rev (map as_result points)))\<rparr>"

text \<open>
  A searcher over a root with the one file \<^verbatim>\<open>a.py\<close>, indexed when its bytes were
  \<^verbatim>\<open>x = 1\<close>, and the filesystem after the bytes have become \<^verbatim>\<open>x = (\<close>.
\<close>

definition demo_externals :: externals where
  "demo_externals =
     \<lparr>sha256_hex = tag_digest, tokenizer = length, python_parser = Inr error_parse,
      descendant_for_byte_range = covering_node,
      sparse_embed = (\<lambda>t. []), dense_embed = (\<lambda>t. []),
      EXTENSION_TO_TREE_SITTER_LANGUAGE = py_table,
      search_dense = (\<lambda>points v limit. []), search_sparse = (\<lambda>points v limit. [])\<rparr>"

definition old_point :: point_struct where
  "old_point =
     \<lparr>point_id = ''a.py_0'',
      payload = \<lparr>payload_path = ''a.py'', payload_hash = Some ''#x = 1'',
                 payload_chunk_text = ''x = 1'',
                 payload_metadata = ChunkMetadata3 0 1 ''python''\<rparr>,
      text_sparse = [], text_dense = []\<rparr>"

definition demo_search :: hybrid_code_search where
  "demo_search =
     \<lparr>root_path = ''/repo'',
      merkle_tree = MerkleTree_init tag_digest (Dir [(''a.py'', File ''x = 1'')]),
      code_splitters = [],
      collection = [old_point]\<rparr>"

definition broken_fs :: fs_entry where
  "broken_fs = Dir [(''a.py'', File ''x = ('')]"

chapter \<open>Properties\<close>

section \<open>Merkle tree\<close>

subsection \<open>Determinism of the build\<close>

lemma same_contents_hash:
  "same_contents e1 e2 \<Longrightarrow>
   hash_value (build_node sha e1 n1) = hash_value (build_node sha e2 n2)"
proof (induction arbitrary: n1 n2 rule: same_contents.induct)
  case (same_file content)
  show ?case by (simp add: compute_file_hash_def)
next
  case (same_dir xs zs ys)
  let ?h = "\<lambda>item. hash_value (build_node sha (snd item) empty_node)"
  have "map ?h xs = map ?h zs"
    using same_dir(1) by (induction xs zs rule: list_all2_induct) auto
  moreover have "mset (map ?h zs) = mset (map ?h ys)"
    using same_dir(2) by simp
  then have "sort (map ?h zs) = sort (map ?h ys)"
    by (metis properties_for_sort sorted_sort mset_sort)
  ultimately show ?case
    by (simp add: compute_directory_hash_def Let_def o_def)
qed

lemma listings_same_contents: "same_contents listing_one listing_two"
proof -
  have inner: "same_contents (Dir [(''x'', File ''2''), (''y'', File ''3'')])
                             (Dir [(''y'', File ''3''), (''x'', File ''2'')])"
    by (rule same_dir[where zs = "[(''x'', File ''2''), (''y'', File ''3'')]"])
       (simp_all add: same_file)
  show ?thesis
    unfolding listing_one_def listing_two_def
    by (rule same_dir[where zs =
          "[(''a'', File ''1''), (''b'', Dir [(''y'', File ''3''), (''x'', File ''2'')])]"])
       (simp_all add: same_file inner)
qed

text \<open>
  C7. Two runs of \<^verbatim>\<open>build_tree\<close> over the same directory contents give the same root
  hash, whatever the order in which each directory lists its entries, for every hash
  function and whatever the two root nodes held before.
\<close>

theorem build_tree_deterministic:
  "same_contents fs1 fs2 \<Longrightarrow>
   hash_value (build_tree sha256 fs1 root1) = hash_value (build_tree sha256 fs2 root2)"
  unfolding build_tree_def by (rule same_contents_hash)

theorem build_tree_deterministic_witness:
  "same_contents listing_one listing_two
   \<and> hash_value (build_tree tag_digest listing_one empty_node) = ''###2#3#1''
   \<and> hash_value (build_tree tag_digest listing_two empty_node) = ''###2#3#1''"
proof -
  have one: "hash_value (build_tree tag_digest listing_one empty_node) = ''###2#3#1''"
    by (simp add: build_tree_def listing_one_def compute_directory_hash_def
        compute_file_hash_def tag_digest_def empty_node_def)
  show ?thesis
    using build_tree_deterministic[OF listings_same_contents, of tag_digest empty_node empty_node]
      listings_same_contents one
    by simp
qed

subsection \<open>Running the model\<close>

lemmas merkle_eval =
  MerkleTree_init_def build_tree_def compute_directory_hash_def compute_file_hash_def
  tag_digest_def empty_node_def update_file_def relpath_parts_def set_child_def
  child_or_empty_def get_node_hash_def path_exists_def get_changes_def get_all_files_def
  all_children_def

subsection \<open>update\_file and the hashes above the file\<close>

lemma set_child_hash [simp]: "hash_value (set_child k c n) = hash_value n"
  by (simp add: set_child_def)

lemma walk_to_file_hash [simp]: "hash_value (walk_to_file f parts n) = hash_value n"
  by (induction f parts n rule: walk_to_file.induct) simp_all

lemma update_parent_hashes_hash [simp]:
  "hash_value (update_parent_hashes sha parts n) = hash_value n"
  by (cases parts) (auto split: option.splits)

text \<open>
  For every hash function, filesystem, path and tree: \<^verbatim>\<open>update_file\<close> leaves the hash of
  the root as it was.
\<close>

lemma update_file_keeps_root_hash:
  "hash_value (fst (update_file sha256 fs comps tree_root)) = hash_value tree_root"
  by (auto simp: update_file_def Let_def split: option.splits fs_entry.splits)

text \<open>
  C2. The claim: after \<^verbatim>\<open>build_tree\<close>, a change of the bytes of a file and
  \<^verbatim>\<open>update_file\<close> on it, the tree equals a fresh build. The code at \<^verbatim>\<open>a/b/x\<close>, for every
  hash function: the hash of \<^verbatim>\<open>b\<close> is the fresh one; the hash of \<^verbatim>\<open>a\<close> was recomputed
  before that of \<^verbatim>\<open>b\<close>, from the old hash of \<^verbatim>\<open>b\<close>, and is the old one; the hash of the
  root was not recomputed.
\<close>

theorem update_file_stale_ancestors:
  "fst (update_file sha256 nested_new [''a'', ''b'', ''x''] (MerkleTree_init sha256 nested_old))
     = MerkleNode (sha256 (sha256 (sha256 (sha256 ''old'')))) False
         [(''a'', MerkleNode (sha256 (sha256 (sha256 ''old''))) False
            [(''b'', MerkleNode (sha256 (sha256 ''new'')) False
               [(''x'', MerkleNode (sha256 ''new'') True [])])])]
   \<and> MerkleTree_init sha256 nested_new
     = MerkleNode (sha256 (sha256 (sha256 (sha256 ''new'')))) False
         [(''a'', MerkleNode (sha256 (sha256 (sha256 ''new''))) False
            [(''b'', MerkleNode (sha256 (sha256 ''new'')) False
               [(''x'', MerkleNode (sha256 ''new'') True [])])])]"
  by (simp add: MerkleTree_init_def build_tree_def compute_directory_hash_def
      compute_file_hash_def empty_node_def update_file_def relpath_parts_def set_child_def
      child_or_empty_def nested_old_def nested_new_def)

subsection \<open>get\_changes and files of one tree only\<close>

lemma compare_nodes_empty_first_aux:
  "node1 = empty_node \<Longrightarrow> compare_nodes path node1 node2 = []"
proof (induction path node1 node2 rule: compare_nodes.induct)
  case (1 path node1 node2)
  have e: "child_or_empty empty_node c = empty_node" for c
    by (simp add: child_or_empty_def empty_node_def)
  have nf: "\<not> is_file node1" using 1(2) by (simp add: empty_node_def)
  show ?case
  proof (cases "hash_value node1 \<noteq> hash_value node2")
    case True
    have "compare_nodes (path @ [c]) (child_or_empty node1 c) (child_or_empty node2 c) = []"
      if "c \<in> set (all_children node1 node2)" for c
      using 1(1)[OF True nf that] 1(2) e by simp
    then show ?thesis
      using True nf by (subst compare_nodes.simps) simp
  next
    case False
    then show ?thesis by (subst compare_nodes.simps) simp
  qed
qed

text \<open>
  For every tree \<open>node2\<close>: against the node that stands for a missing child on the side
  of \<^verbatim>\<open>self\<close>, the comparison reports nothing.
\<close>

lemma compare_nodes_empty_first: "compare_nodes path empty_node node2 = []"
  by (rule compare_nodes_empty_first_aux) simp

text \<open>
  For every pair of trees, \<^verbatim>\<open>get_changes\<close> reports only paths that are files of the tree
  of \<^verbatim>\<open>self\<close>; a file of the other tree alone is never among them. A file of \<^verbatim>\<open>self\<close>
  alone is reported (for a hash function under which the hashes at hand differ, as
  they do under SHA-256).
\<close>

lemma get_changes_reports_removed_file:
  "sha256 (sha256 content) \<noteq> sha256 [] \<Longrightarrow> sha256 content \<noteq> [] \<Longrightarrow>
   get_changes (MerkleTree_init sha256 (Dir [(name, File content)]))
               (MerkleTree_init sha256 (Dir [])) = [[name]]"
  by (simp add: MerkleTree_init_def build_tree_def compute_directory_hash_def
      compute_file_hash_def empty_node_def get_changes_def get_all_files_def
      child_or_empty_def all_children_def compare_nodes.simps)

lemma node_at_empty_node:
  "map_option is_file (node_at rest empty_node) \<noteq> Some True"
  by (cases rest) (simp_all add: empty_node_def)

lemma compare_nodes_reports_own_files:
  "p \<in> set (compare_nodes path node1 node2) \<Longrightarrow>
   \<exists>rest. p = path @ rest \<and> map_option is_file (node_at rest node1) = Some True"
proof (induction path node1 node2 rule: compare_nodes.induct)
  case (1 path node1 node2)
  show ?case
  proof (cases "hash_value node1 \<noteq> hash_value node2")
    case False
    with 1(2) show ?thesis by (subst (asm) compare_nodes.simps) simp
  next
    case differ: True
    show ?thesis
    proof (cases "is_file node1")
      case True
      with differ 1(2) have "p = path" by (subst (asm) compare_nodes.simps) simp
      with True show ?thesis by simp
    next
      case False
      with differ 1(2) obtain child where c: "child \<in> set (all_children node1 node2)"
        and p: "p \<in> set (compare_nodes (path @ [child]) (child_or_empty node1 child)
                          (child_or_empty node2 child))"
        by (subst (asm) compare_nodes.simps) auto
      from 1(1)[OF differ False c p] obtain rest where
        r: "p = (path @ [child]) @ rest"
        "map_option is_file (node_at rest (child_or_empty node1 child)) = Some True"
        by blast
      show ?thesis
      proof (cases "map_of (children node1) child")
        case None
        with r(2) show ?thesis
          using node_at_empty_node[of rest] by (simp add: child_or_empty_def)
      next
        case (Some ch)
        with r have "p = path @ (child # rest)"
          "map_option is_file (node_at (child # rest) node1) = Some True"
          by (simp_all add: child_or_empty_def)
        then show ?thesis by blast
      qed
    qed
  qed
qed

lemma get_changes_only_own_files:
  "p \<in> set (get_changes tree_root other_root) \<Longrightarrow>
   map_option is_file (node_at p tree_root) = Some True"
  using compare_nodes_reports_own_files[of p "[]" tree_root other_root]
  by (simp add: get_changes_def)

text \<open>
  C3. The claim: \<^verbatim>\<open>A.get_changes(B)\<close> holds every file that is in only one of the two
  trees. The code, for every hash function, on an empty directory \<open>A\<close> and a directory
  \<open>B\<close> with one file: \<^verbatim>\<open>A.get_changes(B)\<close> is empty.
\<close>

theorem get_changes_misses_added_file:
  "get_changes (MerkleTree_init sha256 (Dir []))
               (MerkleTree_init sha256 (Dir [(name, File content)])) = []
   \<and> get_all_files (MerkleTree_init sha256 (Dir [])) = []
   \<and> get_all_files (MerkleTree_init sha256 (Dir [(name, File content)])) = [[name]]"
  by (simp add: MerkleTree_init_def build_tree_def compute_directory_hash_def
      compute_file_hash_def empty_node_def get_changes_def get_all_files_def
      child_or_empty_def all_children_def compare_nodes.simps)

subsection \<open>get\_node\_hash\<close>

lemma walk_hash_node_at:
  "walk_hash parts n = map_option hash_value (node_at parts n)"
  by (induction parts n rule: walk_hash.induct) (auto split: option.splits)

text \<open>
  C8, as stated, fails: the tree holds a hash at \<^verbatim>\<open>x\<close>, the file \<^verbatim>\<open>x\<close> is no longer on
  the disk, and \<^verbatim>\<open>get_node_hash\<close> returns nothing.
\<close>

theorem get_node_hash_needs_file_on_disk:
  "get_node_hash (Dir []) [''x''] (MerkleTree_init tag_digest (Dir [(''x'', File ''c'')])) = None
   \<and> map_option hash_value
        (node_at [''x''] (MerkleTree_init tag_digest (Dir [(''x'', File ''c'')]))) = Some ''#c''"
  by (simp add: merkle_eval)

text \<open>
  C8, amended. For a path below the root, \<^verbatim>\<open>get_node_hash\<close> returns nothing when the
  path does not exist on the filesystem at the call. When it exists, the result is the
  hash stored at the tree position the path's components name, of a file or of a
  directory, and nothing when the tree has no such position.
\<close>

theorem get_node_hash_contract:
  "comps \<noteq> [] \<Longrightarrow>
   get_node_hash fs comps tree_root =
     (if path_exists fs comps
      then map_option hash_value (node_at comps tree_root)
      else None)"
  by (simp add: get_node_hash_def walk_hash_node_at relpath_parts_def)

text \<open>
  On the first listing: the hash of the file \<^verbatim>\<open>b/x\<close>, the hash of the directory \<^verbatim>\<open>b\<close>, and
  nothing for \<^verbatim>\<open>a\<close>, which is on the disk, in a tree built from an empty directory.
\<close>

theorem get_node_hash_contract_witness:
  "[''b'', ''x''] \<noteq> [] \<and> [''b''] \<noteq> [] \<and> [''a''] \<noteq> []
   \<and> get_node_hash listing_one [''b'', ''x''] (MerkleTree_init tag_digest listing_one) = Some ''#2''
   \<and> get_node_hash listing_one [''b''] (MerkleTree_init tag_digest listing_one) = Some ''##2#3''
   \<and> get_node_hash listing_one [''a''] (MerkleTree_init tag_digest (Dir [])) = None"
  using get_node_hash_contract [of "[''b'', ''x'']" listing_one "MerkleTree_init tag_digest listing_one"]
    get_node_hash_contract [of "[''b'']" listing_one "MerkleTree_init tag_digest listing_one"]
    get_node_hash_contract [of "[''a'']" listing_one "MerkleTree_init tag_digest (Dir [])"]
  by (simp add: listing_one_def MerkleTree_init_def build_tree_def compute_directory_hash_def
      compute_file_hash_def tag_digest_def empty_node_def path_exists_def)

section \<open>Chunker\<close>

subsection \<open>Pass 1 on a well-formed tree\<close>

lemma wf_node_le: "wf_node n \<Longrightarrow> start_byte n \<le> end_byte n"
  by (cases n) simp

lemma ordered_spans_le: "ordered_spans lo hi xs \<Longrightarrow> lo \<le> hi"
proof (induction xs arbitrary: lo)
  case Nil
  then show ?case by simp
next
  case (Cons a xs)
  then have "span_end a \<le> hi" by auto
  with Cons.prems show ?case by simp
qed

lemma ordered_spans_lower: "ordered_spans lo hi xs \<Longrightarrow> lo' \<le> lo \<Longrightarrow> ordered_spans lo' hi xs"
  by (cases xs) auto

lemma ordered_spans_upper: "ordered_spans lo hi xs \<Longrightarrow> hi \<le> hi' \<Longrightarrow> ordered_spans lo hi' xs"
  by (induction xs arbitrary: lo) auto

lemma ordered_spans_append:
  "ordered_spans a b xs \<Longrightarrow> ordered_spans b c ys \<Longrightarrow> ordered_spans a c (xs @ ys)"
proof (induction xs arbitrary: a)
  case Nil
  then show ?case by (auto intro: ordered_spans_lower)
next
  case (Cons x xs)
  then show ?case by auto
qed

lemma wf_children_le: "wf_children lo hi cs \<Longrightarrow> lo \<le> hi"
proof (induction cs arbitrary: lo)
  case Nil
  then show ?case by simp
next
  case (Cons c cs)
  then have "lo \<le> start_byte c" "start_byte c \<le> end_byte c" "end_byte c \<le> hi"
    by (auto dest: wf_node_le)
  then show ?case by simp
qed

lemma chunk_ordered:
  "(wf_node n \<longrightarrow> (\<forall>chunks. chunk_node self src n = Inr chunks \<longrightarrow>
      ordered_spans (start_byte n) (end_byte n) chunks))"
  "(\<forall>lo hi chunks. wf_children lo hi cs \<longrightarrow> span_start cur \<le> span_end cur \<longrightarrow> span_end cur \<le> lo \<longrightarrow>
      chunk_children self src cur cs = Inr chunks \<longrightarrow> ordered_spans (span_start cur) hi chunks)"
proof (induction self src n and self src cur cs rule: chunk_node_chunk_children.induct)
  case (1 self source_code ty s e cs)
  then show ?case by auto
next
  case (2 self source_code current_chunk)
  then show ?case by (auto simp: Let_def split: if_splits)
next
  case (3 self source_code current_chunk child rest)
  show ?case
  proof (intro allI impI)
    fix lo hi chunks
    assume wf: "wf_children lo hi (child # rest)"
      and c1: "span_start current_chunk \<le> span_end current_chunk"
      and c2: "span_end current_chunk \<le> lo"
      and res: "chunk_children self source_code current_chunk (child # rest) = Inr chunks"
    from wf have w1: "lo \<le> start_byte child" and w2: "wf_node child"
      and w3: "wf_children (end_byte child) hi rest" by auto
    from w2 have w4: "start_byte child \<le> end_byte child" by (rule wf_node_le)
    let ?cs = "Span (start_byte child) (end_byte child)"
    let ?ct = "count_chunk self ?cs source_code"
    let ?sum = "count_chunk self ?cs source_code + count_chunk self current_chunk source_code"
    consider (big) "?ct > target_chunk_tokens self"
      | (mid) "\<not> ?ct > target_chunk_tokens self" "?sum > target_chunk_tokens self"
      | (small) "\<not> ?ct > target_chunk_tokens self" "\<not> ?sum > target_chunk_tokens self"
      by blast
    then show "ordered_spans (span_start current_chunk) hi chunks"
    proof cases
      case big
      from res big obtain sub later where
        noraise: "\<not> (?ct > max_chunk_tokens self \<and> enforce_max_chunk_tokens self)"
        and sub: "chunk_node self source_code child = Inr sub"
        and later: "chunk_children self source_code (Span (end_byte child) (end_byte child)) rest = Inr later"
        and chunks: "chunks = current_chunk # sub @ later"
        by (auto simp: Let_def split: if_splits sum.splits)
      have o1: "ordered_spans (start_byte child) (end_byte child) sub"
        using 3(1)[OF refl refl refl big noraise] w2 sub by blast
      have o2: "ordered_spans (end_byte child) hi later"
        using 3(2)[OF refl refl refl big noraise sub] w3 later by force
      have "ordered_spans (start_byte child) hi (sub @ later)"
        using o1 o2 by (rule ordered_spans_append)
      then have "ordered_spans (span_end current_chunk) hi (sub @ later)"
        using c2 w1 by (auto intro: ordered_spans_lower)
      then show ?thesis using chunks c1 by simp
    next
      case mid
      from res mid obtain later where
        noraise: "\<not> (?sum > max_chunk_tokens self \<and> enforce_max_chunk_tokens self)"
        and later: "chunk_children self source_code ?cs rest = Inr later"
        and chunks: "chunks = current_chunk # later"
        by (auto simp: Let_def split: if_splits sum.splits)
      have "ordered_spans (start_byte child) hi later"
        using 3(3)[OF refl refl refl mid(1) mid(2) noraise] w3 w4 later by force
      then have "ordered_spans (span_end current_chunk) hi later"
        using c2 w1 by (auto intro: ordered_spans_lower)
      then show ?thesis using chunks c1 by simp
    next
      case small
      from res small have
        later: "chunk_children self source_code (span_add current_chunk ?cs) rest = Inr chunks"
        by (auto simp: Let_def split: if_splits sum.splits)
      have "span_start current_chunk \<le> end_byte child" using c1 c2 w1 w4 by simp
      then show ?thesis
        using 3(4)[OF refl refl refl small(1) small(2)] w3 later
        by (force simp: span_add_def)
    qed
  qed
qed

lemma filter_empty_ordered:
  "ordered_spans lo hi xs \<Longrightarrow> filter_empty xs = Inr (filter nonempty_span xs)"
  by (induction xs arbitrary: lo) (auto simp: span_len_def nonempty_span_def)

lemma ordered_spans_filter:
  "ordered_spans lo hi xs \<Longrightarrow> ordered_spans lo hi (filter P xs)"
proof (induction xs arbitrary: lo)
  case Nil
  then show ?case by simp
next
  case (Cons x xs)
  then have "ordered_spans (span_end x) hi (filter P xs)" by auto
  then have "ordered_spans lo hi (filter P xs)"
    using Cons.prems by (auto intro: ordered_spans_lower)
  then show ?case using Cons by auto
qed

lemma align_ends_tiles:
  "ordered_spans lo hi (c # cs) \<Longrightarrow> list_all nonempty_span (c # cs) \<Longrightarrow> hi \<le> n \<Longrightarrow>
   tiles (span_start c) n (align_ends (c # cs) n)"
proof (induction cs arbitrary: lo c)
  case Nil
  then have "span_end c \<le> hi" by simp
  then show ?case using Nil by (simp add: nonempty_span_def)
next
  case (Cons d ds)
  have "tiles (span_start d) n (align_ends (d # ds) n)"
    using Cons.IH[of "span_end c" d] Cons.prems by simp
  moreover have "span_start c < span_start d"
    using Cons.prems by (simp add: nonempty_span_def)
  ultimately show ?case by simp
qed

lemma fill_gaps_tiles:
  assumes "ordered_spans lo hi chunks" "list_all nonempty_span chunks" "hi \<le> n" "chunks \<noteq> []"
  shows "tiles 0 n (fill_gaps chunks n)"
proof -
  from assms(4) obtain c cs where cs: "chunks = c # cs" by (cases chunks) auto
  have "ordered_spans 0 hi (Span 0 (span_end c) # cs)"
    using assms(1) cs by simp
  moreover have "list_all nonempty_span (Span 0 (span_end c) # cs)"
    using assms(1,2) cs by (simp add: nonempty_span_def)
  ultimately have "tiles (span_start (Span 0 (span_end c))) n (align_ends (Span 0 (span_end c) # cs) n)"
    using assms(3) by (rule align_ends_tiles)
  then show ?thesis by (simp add: fill_gaps_def cs)
qed

lemma tiles_chain: "tiles lo hi xs \<Longrightarrow> chain lo hi xs"
  by (induction xs arbitrary: lo) auto

lemma chain_append:
  "chain a b xs \<Longrightarrow> chain b c ys \<Longrightarrow> chain a c (xs @ ys)"
  by (induction xs arbitrary: a) auto

lemma chain_filter_tiles: "chain lo hi xs \<Longrightarrow> tiles lo hi (filter nonempty_span xs)"
proof (induction xs arbitrary: lo)
  case Nil
  then show ?case by simp
next
  case (Cons x xs)
  then show ?case by (cases "span_start x = span_end x") (auto simp: nonempty_span_def)
qed

lemma combine_chunks_chain:
  "chain a hi chunks \<Longrightarrow> span_start agg \<le> span_end agg \<Longrightarrow> span_end agg = a \<Longrightarrow>
   chain (span_start agg) (span_start (snd (combine_chunks self src agg len chunks)))
         (fst (combine_chunks self src agg len chunks))
   \<and> span_start (snd (combine_chunks self src agg len chunks))
       \<le> span_end (snd (combine_chunks self src agg len chunks))
   \<and> span_end (snd (combine_chunks self src agg len chunks)) = hi"
proof (induction self src agg len chunks arbitrary: a rule: combine_chunks.induct)
  case (1 self source_code aggregated_chunk aggregated_chunk_token_len)
  then show ?case by simp
next
  case (2 self source_code aggregated_chunk aggregated_chunk_token_len chunk chunks)
  from "2.prems" have st: "span_start chunk = a" and le: "a \<le> span_end chunk"
    and rest: "chain (span_end chunk) hi chunks" by auto
  let ?t = "count_chunk self chunk source_code"
  consider (big) "?t > target_chunk_tokens self"
    | (mid) "\<not> ?t > target_chunk_tokens self"
        "aggregated_chunk_token_len + ?t > target_chunk_tokens self"
    | (flush) "\<not> ?t > target_chunk_tokens self"
        "\<not> aggregated_chunk_token_len + ?t > target_chunk_tokens self"
        "aggregated_chunk_token_len + ?t > coalesce self"
    | (keep) "\<not> ?t > target_chunk_tokens self"
        "\<not> aggregated_chunk_token_len + ?t > target_chunk_tokens self"
        "\<not> aggregated_chunk_token_len + ?t > coalesce self"
    by blast
  then show ?case
  proof cases
    case big
    show ?thesis
      using "2.IH"(1)[OF refl big rest] big "2.prems" st le
      by (simp add: Let_def)
  next
    case mid
    show ?thesis
      using "2.IH"(2)[OF refl mid(1) mid(2) rest] mid "2.prems" st le
      by (simp add: Let_def)
  next
    case flush
    show ?thesis
      using "2.IH"(3)[OF refl flush(1) flush(2) refl refl flush(3) rest] flush "2.prems" st le
      by (simp add: Let_def span_add_def)
  next
    case keep
    show ?thesis
      using "2.IH"(4)[OF refl keep(1) keep(2) refl refl keep(3) rest] keep "2.prems" st le
      by (simp add: Let_def span_add_def)
  qed
qed

lemma filter_empty_nonempty: "filter_empty xs = Inr ys \<Longrightarrow> list_all nonempty_span ys"
  by (induction xs arbitrary: ys)
     (auto simp: span_len_def nonempty_span_def split: if_splits sum.splits)

lemma fst_chunk_with_metadata [simp]: "fst \<circ> chunk_with_metadata self d src = id"
  by (rule ext) (simp add: chunk_with_metadata_def)

lemma nonempty_chunks_ordered:
  assumes "wf_node root_node" "nonempty_chunks self source_code root_node = Inr chunks"
  shows "ordered_spans (start_byte root_node) (end_byte root_node) chunks \<and> list_all nonempty_span chunks"
proof -
  from assms(2) obtain raw where raw: "chunk_node self source_code root_node = Inr raw"
    and fe: "filter_empty raw = Inr chunks"
    by (auto simp: nonempty_chunks_def split: sum.splits)
  have o: "ordered_spans (start_byte root_node) (end_byte root_node) raw"
    using chunk_ordered(1)[of root_node self source_code] assms(1) raw by blast
  then have "filter_empty raw = Inr (filter nonempty_span raw)"
    by (rule filter_empty_ordered)
  with fe have "chunks = filter nonempty_span raw" by simp
  then show ?thesis
    using o fe by (auto intro: ordered_spans_filter filter_empty_nonempty)
qed

lemma combine_small_chunks_tiles:
  assumes "chain 0 n chunks"
  shows "\<exists>new_chunks. combine_small_chunks self source_code chunks = Inr new_chunks
           \<and> tiles 0 n (filter nonempty_span new_chunks)"
proof -
  let ?r = "combine_chunks self source_code (Span 0 0) 0 chunks"
  have c: "chain 0 (span_start (snd ?r)) (fst ?r)"
    and le: "span_start (snd ?r) \<le> span_end (snd ?r)" and e: "span_end (snd ?r) = n"
    using combine_chunks_chain[OF assms, of "Span 0 0" self source_code 0] by simp_all
  show ?thesis
  proof (cases "span_start (snd ?r) < span_end (snd ?r)")
    case True
    have "chain (span_start (snd ?r)) n [snd ?r]" using le e by simp
    with c have "chain 0 n (fst ?r @ [snd ?r])" by (rule chain_append)
    then have "tiles 0 n (filter nonempty_span (fst ?r @ [snd ?r]))"
      by (rule chain_filter_tiles)
    then show ?thesis
      using True le by (simp add: combine_small_chunks_def Let_def span_len_def)
  next
    case False
    with le e have "span_start (snd ?r) = n" by simp
    with c have "chain 0 n (fst ?r)" by simp
    then have "tiles 0 n (filter nonempty_span (fst ?r))"
      by (rule chain_filter_tiles)
    then show ?thesis
      using False le by (simp add: combine_small_chunks_def Let_def span_len_def)
  qed
qed

subsection \<open>Running the model\<close>

lemmas chunker_eval =
  chunk_tree_def nonempty_chunks_def CodeSplitter_def tight_splitter_def count_chunk_def
  span_extract_def span_len_def span_add_def fill_gaps_def combine_small_chunks_def
  chunk_with_metadata_def ChunkMetadata3_def get_line_number_def node_text_def
  nonempty_span_def Let_def

lemma gap_source_3:
  "gap_source 3 = [CHR ''a'', CHR 0x0A, CHR 0x0A, CHR 0x0A, CHR ''b'']"
  by (simp add: gap_source_def numeral_3_eq_3)

lemma gap_extracts:
  "span_extract (Span 0 0) (gap_source k) = []"
  "span_extract (Span 0 (Suc 0)) (gap_source k) = ''a''"
  "span_extract (Span (Suc k) (Suc (Suc k))) (gap_source k) = ''b''"
  "span_extract (Span 0 (Suc k)) (gap_source k) = CHR ''a'' # replicate k (CHR 0x0A)"
  by (simp_all add: span_extract_def gap_source_def)

lemma import_extracts:
  "span_extract (Span 0 0) import_source = []"
  "span_extract (Span 0 9) import_source = ''import os''"
  "span_extract (Span 10 20) import_source = ''import sys''"
  "span_extract (Span 0 20) import_source = ''import os'' @ [CHR 0x0A] @ ''import sys''"
  by (simp_all add: span_extract_def import_source_def)

lemma import_example_any_tokenizer:
  assumes "\<And>s. tok s \<le> length s"
  shows "chunk_tree (CodeSplitter tok ''python'') descendant import_tree import_source
           = Inr [(Span 0 20, ChunkMetadata3 0 1 ''python'')]"
proof -
  have t: "tok [] = 0" "tok ''import os'' \<le> 9" "tok ''import sys'' \<le> 10"
    "tok (''import os'' @ [CHR 0x0A] @ ''import sys'') \<le> 20"
    using assms[of "[]"] assms[of "''import os''"] assms[of "''import sys''"]
      assms[of "''import os'' @ [CHR 0x0A] @ ''import sys''"] by simp_all
  have "chunk_node (CodeSplitter tok ''python'') import_source import_tree = Inr [Span 0 20]"
    using t by (simp add: import_tree_def CodeSplitter_def count_chunk_def import_extracts
        span_add_def Let_def)
  then show ?thesis
    by (simp add: chunk_tree_def nonempty_chunks_def span_len_def CodeSplitter_def)
qed

subsection \<open>The partition\<close>

text \<open>
  C1, as stated, fails at both early returns. On a buffer that holds one newline no
  chunk is left after Pass 1 and \<^verbatim>\<open>chunk_tree\<close> returns \<^verbatim>\<open>[]\<close>. On
  \<^verbatim>\<open>import os\nimport sys\n\<close> (21 bytes) one chunk is left, \<open>[0, 20)\<close>, the second statement
  ending before its newline, and \<^verbatim>\<open>chunk_tree\<close> returns \<^verbatim>\<open>Span(0, len(chunks[0]))\<close>, which is
  \<open>[0, 20)\<close>: the last byte is not covered. The tokenizer here gives one token for every
  byte; by \<open>import_example_any_tokenizer\<close> the result is the same for every tokenizer
  that gives no more tokens than bytes.
\<close>

theorem early_returns_not_partition:
  "wf_node blank_tree \<and> end_byte blank_tree \<le> length blank_source \<and> blank_source \<noteq> []
   \<and> chunk_tree (CodeSplitter length ''python'') covering_node blank_tree blank_source = Inr []
   \<and> \<not> tiles 0 (length blank_source) (filter nonempty_span [])
   \<and> wf_node import_tree \<and> end_byte import_tree \<le> length import_source
   \<and> nonempty_chunks (CodeSplitter length ''python'') import_source import_tree = Inr [Span 0 20]
   \<and> chunk_tree (CodeSplitter length ''python'') covering_node import_tree import_source
       = Inr [(Span 0 20, ChunkMetadata3 0 1 ''python'')]
   \<and> length import_source = 21
   \<and> \<not> tiles 0 (length import_source) (filter nonempty_span [Span 0 20])"
  by (simp add: chunker_eval import_tree_def import_source_def blank_tree_def blank_source_def)

text \<open>
  C1, amended. For a well-formed tree inside the buffer on which Pass 1 does not raise:
  when no chunk is left after Pass 1, \<^verbatim>\<open>chunk_tree\<close> returns \<^verbatim>\<open>[]\<close>; when at least two are
  left, the chunks after gap filling cover \<open>[0, |buffer|)\<close> exactly, in order, and
  \<^verbatim>\<open>chunk_tree\<close> returns spans that, with the empty ones filtered out, cover
  \<open>[0, |buffer|)\<close> exactly, in order.
\<close>

theorem chunk_tree_partition:
  assumes "wf_node root_node" and "end_byte root_node \<le> length source_code"
    and "nonempty_chunks self source_code root_node = Inr chunks"
  shows "(chunks = [] \<longrightarrow> chunk_tree self descendant root_node source_code = Inr [])
       \<and> (2 \<le> length chunks \<longrightarrow>
            tiles 0 (length source_code) (fill_gaps chunks (length source_code))
          \<and> (\<exists>out. chunk_tree self descendant root_node source_code = Inr out
               \<and> tiles 0 (length source_code) (filter nonempty_span (map fst out))))"
proof (intro conjI impI)
  assume "chunks = []"
  then show "chunk_tree self descendant root_node source_code = Inr []"
    using assms(3) by (simp add: chunk_tree_def)
next
  assume two: "2 \<le> length chunks"
  have o: "ordered_spans (start_byte root_node) (end_byte root_node) chunks"
    and ne: "list_all nonempty_span chunks"
    using nonempty_chunks_ordered[OF assms(1,3)] by simp_all
  from two have "chunks \<noteq> []" by auto
  with o ne assms(2) show t: "tiles 0 (length source_code) (fill_gaps chunks (length source_code))"
    by (rule fill_gaps_tiles)
  then have "chain 0 (length source_code) (fill_gaps chunks (length source_code))"
    by (rule tiles_chain)
  then obtain new_chunks where
    n1: "combine_small_chunks self source_code (fill_gaps chunks (length source_code)) = Inr new_chunks"
    and n2: "tiles 0 (length source_code) (filter nonempty_span new_chunks)"
    using combine_small_chunks_tiles by blast
  have "chunk_tree self descendant root_node source_code
          = Inr (map (chunk_with_metadata self (descendant root_node) source_code) new_chunks)"
    using assms(3) two n1 \<open>chunks \<noteq> []\<close> by (simp add: chunk_tree_def)
  with n2 show "\<exists>out. chunk_tree self descendant root_node source_code = Inr out
               \<and> tiles 0 (length source_code) (filter nonempty_span (map fst out))"
    by simp
qed

theorem chunk_tree_partition_witness:
  "wf_node (gap_tree 3) \<and> end_byte (gap_tree 3) \<le> length (gap_source 3)
   \<and> nonempty_chunks (tight_splitter length) (gap_source 3) (gap_tree 3) = Inr [Span 0 1, Span 4 5]
   \<and> 2 \<le> length [Span 0 1, Span 4 5]
   \<and> fill_gaps [Span 0 1, Span 4 5] (length (gap_source 3)) = [Span 0 4, Span 4 5]
   \<and> tiles 0 (length (gap_source 3)) [Span 0 4, Span 4 5]
   \<and> map fst (projr (chunk_tree (tight_splitter length) covering_node (gap_tree 3) (gap_source 3)))
       = [Span 0 0, Span 0 4, Span 4 5]
   \<and> tiles 0 (length (gap_source 3)) (filter nonempty_span [Span 0 0, Span 0 4, Span 4 5])"
proof -
  have w: "wf_node (gap_tree 3)" by (simp add: gap_tree_def)
  have e: "end_byte (gap_tree 3) \<le> length (gap_source 3)"
    by (simp add: gap_tree_def gap_source_3)
  have n: "nonempty_chunks (tight_splitter length) (gap_source 3) (gap_tree 3)
             = Inr [Span 0 1, Span 4 5]"
    by (simp add: chunker_eval gap_tree_def gap_source_3)
  have c: "map fst (projr (chunk_tree (tight_splitter length) covering_node (gap_tree 3) (gap_source 3)))
       = [Span 0 0, Span 0 4, Span 4 5]"
    by (simp add: chunker_eval gap_tree_def gap_source_3)
  show ?thesis
    using chunk_tree_partition[OF w e n, of covering_node] w e n c
    by (simp add: gap_source_3 nonempty_span_def fill_gaps_def)
qed

subsection \<open>The token budget\<close>

text \<open>
  C5. The claim: with the maximum enforced, every returned span has at most
  \<^verbatim>\<open>max_chunk_tokens\<close> tokens. The code checks the chunks of Pass 1; gap filling then moves
  the end of a chunk to the start of the next one, and no later line counts again. On
  \<^verbatim>\<open>a\<close>, \<open>k\<close> newlines, \<^verbatim>\<open>b\<close>, with target 1 and maximum 2: for every tokenizer that
  gives \<^verbatim>\<open>a\<close> and \<^verbatim>\<open>b\<close> one token each and \<^verbatim>\<open>a\<close> with the \<open>k\<close> newlines more than two,
  \<^verbatim>\<open>chunk_tree\<close> returns without raising and its second span has more than 2 tokens.
\<close>

theorem budget_exceeded_by_gap:
  assumes "tok [] = 0" and "tok ''a'' = 1" and "tok ''b'' = 1"
    and "2 < tok (CHR ''a'' # replicate k (CHR 0x0A))"
  shows "chunk_tree (tight_splitter tok) descendant (gap_tree k) (gap_source k)
           = Inr (map (chunk_with_metadata (tight_splitter tok) (descendant (gap_tree k)) (gap_source k))
                    [Span 0 0, Span 0 (k + 1), Span (k + 1) (k + 2)])
       \<and> max_chunk_tokens (tight_splitter tok)
           < count_chunk (tight_splitter tok) (Span 0 (k + 1)) (gap_source k)"
proof -
  have k: "0 < k" using assms(2,4) by (cases k) auto
  have n: "nonempty_chunks (tight_splitter tok) (gap_source k) (gap_tree k)
             = Inr [Span 0 1, Span (k + 1) (k + 2)]"
    using assms by (simp add: nonempty_chunks_def gap_tree_def tight_splitter_def count_chunk_def
        gap_extracts span_add_def span_len_def Let_def)
  have f: "fill_gaps [Span 0 1, Span (k + 1) (k + 2)] (length (gap_source k))
             = [Span 0 (k + 1), Span (k + 1) (k + 2)]"
    by (simp add: fill_gaps_def gap_source_def)
  have c: "combine_small_chunks (tight_splitter tok) (gap_source k) [Span 0 (k + 1), Span (k + 1) (k + 2)]
             = Inr [Span 0 0, Span 0 (k + 1), Span (k + 1) (k + 2)]"
    using assms by (simp add: combine_small_chunks_def tight_splitter_def count_chunk_def
        gap_extracts span_add_def span_len_def Let_def)
  have "chunk_tree (tight_splitter tok) descendant (gap_tree k) (gap_source k)
          = Inr (map (chunk_with_metadata (tight_splitter tok) (descendant (gap_tree k)) (gap_source k))
                   [Span 0 0, Span 0 (k + 1), Span (k + 1) (k + 2)])"
    using n f c by (simp add: chunk_tree_def)
  moreover have "max_chunk_tokens (tight_splitter tok)
           < count_chunk (tight_splitter tok) (Span 0 (k + 1)) (gap_source k)"
    using assms(4) by (simp add: tight_splitter_def count_chunk_def gap_extracts)
  ultimately show ?thesis by simp
qed

theorem budget_exceeded_by_gap_witness:
  "length [] = (0::nat) \<and> length ''a'' = 1 \<and> length ''b'' = 1
   \<and> 2 < length (CHR ''a'' # replicate 3 (CHR 0x0A))
   \<and> chunk_tree (tight_splitter length) covering_node (gap_tree 3) (gap_source 3)
       = Inr [(Span 0 0, \<lparr>start_line = 0, end_line = 0, language = ''python'', symbols = [], imports' = []\<rparr>),
              (Span 0 4, \<lparr>start_line = 0, end_line = 3, language = ''python'', symbols = [], imports' = []\<rparr>),
              (Span 4 5, \<lparr>start_line = 3, end_line = 4, language = ''python'', symbols = [], imports' = []\<rparr>)]
   \<and> count_chunk (tight_splitter length) (Span 0 4) (gap_source 3) = 4
   \<and> max_chunk_tokens (tight_splitter length) = 2"
proof -
  have m: "map (chunk_with_metadata (tight_splitter length) (covering_node (gap_tree 3)) (gap_source 3))
             [Span 0 0, Span 0 (3 + 1), Span (3 + 1) (3 + 2)]
       = [(Span 0 0, \<lparr>start_line = 0, end_line = 0, language = ''python'', symbols = [], imports' = []\<rparr>),
              (Span 0 4, \<lparr>start_line = 0, end_line = 3, language = ''python'', symbols = [], imports' = []\<rparr>),
              (Span 4 5, \<lparr>start_line = 3, end_line = 4, language = ''python'', symbols = [], imports' = []\<rparr>)]"
    by (simp add: chunker_eval gap_tree_def gap_source_3)
  have c: "count_chunk (tight_splitter length) (Span 0 4) (gap_source 3) = 4"
    by (simp add: chunker_eval gap_source_3)
  show ?thesis
    using budget_exceeded_by_gap[of length 3 covering_node] m c
    by (simp add: tight_splitter_def)
qed

subsection \<open>Metadata of a sole chunk\<close>

text \<open>
  C6. The claim: on \<^verbatim>\<open>import os\nimport sys\n\<close> the sole chunk has the imports
  \<^verbatim>\<open>["import os", "import sys"]\<close>. The code, for every tokenizer that gives no more tokens
  than bytes, returns the sole chunk with
  \<^verbatim>\<open>ChunkMetadata(0, 1, self.language)\<close>, whose imports are empty; \<^verbatim>\<open>_extract_imports\<close> on
  the root, which the path for two or more chunks calls, gives the two statements.
\<close>

theorem sole_chunk_without_imports:
  assumes "\<And>s. tok s \<le> length s"
  shows "chunk_tree (CodeSplitter tok ''python'') descendant import_tree import_source
     = Inr [(Span 0 20,
             \<lparr>start_line = 0, end_line = 1, language = ''python'', symbols = [], imports' = []\<rparr>)]
   \<and> extract_imports import_source import_tree = [''import os'', ''import sys'']
   \<and> extract_symbols import_source import_tree = []"
  using import_example_any_tokenizer[of tok descendant, OF assms]
  by (simp add: ChunkMetadata3_def import_tree_def node_text_def import_extracts)

theorem sole_chunk_without_imports_witness:
  "(\<forall>s::string. length s \<le> length s)
   \<and> chunk_tree (CodeSplitter length ''python'') covering_node import_tree import_source
     = Inr [(Span 0 20,
             \<lparr>start_line = 0, end_line = 1, language = ''python'', symbols = [], imports' = []\<rparr>)]
   \<and> extract_imports import_source import_tree = [''import os'', ''import sys'']"
  using sole_chunk_without_imports[of length covering_node] by simp

section \<open>Rank fusion and search\<close>

lemma rank_from_inf_iff: "rank_from n i rs = \<infinity> \<longleftrightarrow> i \<notin> result_id ` set rs"
proof (induction rs arbitrary: n)
  case Nil
  show ?case by simp
next
  case (Cons r rs)
  show ?case
    using Cons.IH[of "Suc n"] by (cases "rank_from (Suc n) i rs") auto
qed

lemma rank_from_find:
  "rank_from n i rs = enat m \<Longrightarrow> \<exists>r. find (\<lambda>r. result_id r = i) rs = Some r \<and> result_id r = i"
  by (induction rs arbitrary: n) (auto split: enat.splits if_splits)

lemma map_of_rank_dense_results:
  "map_of (rank_dense_results n rs ranks) i =
     (case rank_from n i rs of
        \<infinity> \<Rightarrow> map_of ranks i
      | enat m \<Rightarrow>
          Some (case map_of ranks i of
                  Some item \<Rightarrow> item\<lparr>dense_rank := enat m\<rparr>
                | None \<Rightarrow> \<lparr>item_result = the (find (\<lambda>r. result_id r = i) rs),
                           dense_rank = enat m, sparse_rank = \<infinity>\<rparr>))"
proof (induction rs arbitrary: n ranks)
  case Nil
  show ?case by simp
next
  case (Cons r rs)
  show ?case
    by (cases "rank_from (Suc n) i rs"; cases "map_of ranks (result_id r)"; cases "map_of ranks i")
       (auto simp: Cons.IH update_conv')
qed

lemma map_of_rank_sparse_results:
  "map_of (rank_sparse_results n rs ranks) i =
     (case rank_from n i rs of
        \<infinity> \<Rightarrow> map_of ranks i
      | enat m \<Rightarrow>
          Some (case map_of ranks i of
                  Some item \<Rightarrow> item\<lparr>sparse_rank := enat m\<rparr>
                | None \<Rightarrow> \<lparr>item_result = the (find (\<lambda>r. result_id r = i) rs),
                           dense_rank = \<infinity>, sparse_rank = enat m\<rparr>))"
proof (induction rs arbitrary: n ranks)
  case Nil
  show ?case by simp
next
  case (Cons r rs)
  show ?case
    by (cases "rank_from (Suc n) i rs"; cases "map_of ranks (result_id r)"; cases "map_of ranks i")
       (auto simp: Cons.IH update_conv')
qed

lemma distinct_rank_dense_results:
  "distinct (map fst ranks) \<Longrightarrow> distinct (map fst (rank_dense_results n rs ranks))"
  by (induction rs arbitrary: n ranks) (auto simp: distinct_update split: option.splits)

lemma distinct_rank_sparse_results:
  "distinct (map fst ranks) \<Longrightarrow> distinct (map fst (rank_sparse_results n rs ranks))"
  by (induction rs arbitrary: n ranks) (auto simp: distinct_update split: option.splits)

lemma fused_ranks_distinct: "distinct (map fst (fused_ranks D S))"
  unfolding fused_ranks_def
  by (intro distinct_rank_sparse_results distinct_rank_dense_results) simp

lemma fused_ranks_entry:
  assumes "map_of (fused_ranks D S) i = Some item"
  shows "dense_rank item = rank_from 1 i D" and "sparse_rank item = rank_from 1 i S"
    and "result_id (item_result item) = i"
proof -
  have all: "dense_rank item = rank_from 1 i D \<and> sparse_rank item = rank_from 1 i S
      \<and> result_id (item_result item) = i"
  proof (cases "rank_from 1 i S")
    case inf: infinity
    show ?thesis
    proof (cases "rank_from 1 i D")
      case infinity
      with inf assms show ?thesis
        by (simp add: fused_ranks_def map_of_rank_sparse_results map_of_rank_dense_results)
    next
      case (enat d)
      then obtain r where "find (\<lambda>r. result_id r = i) D = Some r" "result_id r = i"
        using rank_from_find by blast
      with inf enat assms show ?thesis
        by (auto simp: fused_ranks_def map_of_rank_sparse_results map_of_rank_dense_results)
    qed
  next
    case s: (enat m)
    then obtain rs where rs: "find (\<lambda>r. result_id r = i) S = Some rs" "result_id rs = i"
      using rank_from_find by blast
    show ?thesis
    proof (cases "rank_from 1 i D")
      case infinity
      with s rs assms show ?thesis
        by (auto simp: fused_ranks_def map_of_rank_sparse_results map_of_rank_dense_results)
    next
      case (enat d)
      then obtain r where "find (\<lambda>r. result_id r = i) D = Some r" "result_id r = i"
        using rank_from_find by blast
      with s enat assms show ?thesis
        by (auto simp: fused_ranks_def map_of_rank_sparse_results map_of_rank_dense_results)
    qed
  qed
  then show "dense_rank item = rank_from 1 i D" "sparse_rank item = rank_from 1 i S"
    "result_id (item_result item) = i" by simp_all
qed

lemma fused_ranks_keys:
  "fst ` set (fused_ranks D S) = result_id ` set D \<union> result_id ` set S"
proof -
  have "i \<in> dom (map_of (fused_ranks D S)) \<longleftrightarrow> i \<in> result_id ` set D \<union> result_id ` set S" for i
  proof -
    have "map_of (fused_ranks D S) i \<noteq> None
       \<longleftrightarrow> (rank_from 1 i D \<noteq> \<infinity> \<or> rank_from 1 i S \<noteq> \<infinity>)"
      by (cases "rank_from 1 i S"; cases "rank_from 1 i D")
         (simp_all add: fused_ranks_def map_of_rank_sparse_results map_of_rank_dense_results)
    then show ?thesis
      by (auto simp: rank_from_inf_iff)
  qed
  then have "dom (map_of (fused_ranks D S)) = result_id ` set D \<union> result_id ` set S"
    by blast
  then show ?thesis by (simp add: dom_map_of_conv_image_fst)
qed

lemma reciprocal_rank_pos: "0 < alpha \<Longrightarrow> reciprocal_rank alpha r = Inr (reciprocal alpha r)"
  by (cases r) (auto simp: reciprocal_rank_def reciprocal_def add_nonneg_eq_0_iff
      dest: add_pos_nonneg[of alpha "real n" for n])

lemma score_items_pos: "0 < alpha \<Longrightarrow> score_items alpha items = Inr (map (scored_item alpha) items)"
  by (induction items) (simp_all add: rrf_score_def reciprocal_rank_pos scored_item_def)

lemma combine_results_60:
  "combine_results D S 60
     = Inr (sort_key (\<lambda>x. - snd x) (map (scored_item 60) (map snd (fused_ranks D S))))"
  by (simp add: combine_results_def score_items_pos fused_ranks_def Let_def)

lemma combined_facts:
  fixes D S :: "scored_point list"
  defines "combined \<equiv> sort_key (\<lambda>x. - snd x) (map (scored_item 60) (map snd (fused_ranks D S)))"
  shows "result_id ` fst ` set combined = result_id ` set D \<union> result_id ` set S"
    and "distinct (map (\<lambda>x. result_id (fst x)) combined)"
    and "\<forall>x \<in> set combined. snd x = fused_score 60 D S (result_id (fst x))"
    and "sorted_wrt (\<lambda>a b. snd b \<le> snd a) combined"
    and "length combined \<le> length D + length S"
proof -
  let ?ranks = "fused_ranks D S"
  let ?scored = "map (scored_item 60) (map snd ?ranks)"
  have entry: "result_id (item_result item) = k \<and> dense_rank item = rank_from 1 k D
      \<and> sparse_rank item = rank_from 1 k S" if "(k, item) \<in> set ?ranks" for k item
  proof -
    have "map_of ?ranks k = Some item"
      using that fused_ranks_distinct by (simp add: map_of_eq_Some_iff)
    then show ?thesis using fused_ranks_entry by blast
  qed
  have ids: "map (\<lambda>x. result_id (fst x)) ?scored = map fst ?ranks"
    using entry by (auto simp: scored_item_def)
  have set_c: "set combined = set ?scored" by (simp add: combined_def)
  have "result_id ` fst ` set combined = set (map (\<lambda>x. result_id (fst x)) ?scored)"
    unfolding set_c by (simp add: image_image)
  also have "\<dots> = fst ` set ?ranks" by (simp only: ids set_map)
  finally show "result_id ` fst ` set combined = result_id ` set D \<union> result_id ` set S"
    by (simp add: fused_ranks_keys)
  have "mset combined = mset ?scored"
    unfolding combined_def by (rule mset_sort)
  then have "mset (map (\<lambda>x. result_id (fst x)) combined) = mset (map (\<lambda>x. result_id (fst x)) ?scored)"
    by (metis mset_map)
  moreover have "distinct (map (\<lambda>x. result_id (fst x)) ?scored)"
    by (simp only: ids fused_ranks_distinct)
  ultimately show "distinct (map (\<lambda>x. result_id (fst x)) combined)"
    by (metis mset_eq_imp_distinct_iff)
  show "\<forall>x \<in> set combined. snd x = fused_score 60 D S (result_id (fst x))"
    unfolding set_c using entry by (auto simp: scored_item_def fused_score_def)
  have "sorted (map (\<lambda>x. - snd x) combined)"
    unfolding combined_def by (rule sorted_sort_key)
  then show "sorted_wrt (\<lambda>a b. snd b \<le> snd a) combined"
    by (simp add: sorted_map)
  have "length combined = length (map fst ?ranks)" by (simp add: combined_def)
  also have "\<dots> = card (fst ` set ?ranks)"
    using distinct_card[OF fused_ranks_distinct[of D S]] by simp
  also have "\<dots> \<le> card (result_id ` set D) + card (result_id ` set S)"
    by (simp add: fused_ranks_keys card_Un_le)
  also have "\<dots> \<le> length D + length S"
    by (meson add_mono card_image_le card_length le_trans List.finite_set)
  finally show "length combined \<le> length D + length S" .
qed

text \<open>
  C4, as stated, fails in its last part: with one point first in the dense ranking and
  another first in the sparse ranking, \<^verbatim>\<open>search\<close> with limit 1 returns two results.
\<close>

theorem search_returns_more_than_limit:
  "search ranking_externals [demo_point ''a.py'', demo_point ''b.py''] ''q'' 1
     = Inr [\<lparr>hit_path = ''a.py'', hit_score = 1 / 61, hit_hash = Some ''#a.py''\<rparr>,
            \<lparr>hit_path = ''b.py'', hit_score = 1 / 61, hit_hash = Some ''#b.py''\<rparr>]
   \<and> search_dense ranking_externals [demo_point ''a.py'', demo_point ''b.py'']
        (dense_embed ranking_externals ''q'') 1 = [as_result (demo_point ''a.py'')]
   \<and> search_sparse ranking_externals [demo_point ''a.py'', demo_point ''b.py'']
        (sparse_embed ranking_externals ''q'') 1 = [as_result (demo_point ''b.py'')]
   \<and> \<not> length [\<lparr>hit_path = ''a.py'', hit_score = 1 / 61, hit_hash = Some ''#a.py''\<rparr>,
                 \<lparr>hit_path = ''b.py'', hit_score = 1 / 61, hit_hash = Some ''#b.py''\<rparr>] \<le> 1"
  by (simp add: search_def ranking_externals_def combine_results_def demo_point_def as_result_def
      rrf_score_def reciprocal_rank_def tag_digest_def Let_def)

text \<open>
  C4, amended. For every query and limit \<open>k\<close>, with two searches of the store that
  return at most \<open>k\<close> results each: \<^verbatim>\<open>search\<close> embeds the query for both channels, fuses
  the two result lists with \<open>\<alpha> = 60\<close>, and returns one result for every point id seen in
  either list, with the score \<open>1/(\<alpha> + r_dense) + 1/(\<alpha> + r_sparse)\<close> (rank infinity on
  the unseen side), sorted by descending score; it returns all of them, at most \<open>2k\<close>.
\<close>

theorem search_fusion:
  assumes "length (search_dense ext points (dense_embed ext query) limit) \<le> limit"
    and "length (search_sparse ext points (sparse_embed ext query) limit) \<le> limit"
  shows "\<exists>combined.
           combine_results (search_dense ext points (dense_embed ext query) limit)
             (search_sparse ext points (sparse_embed ext query) limit) 60 = Inr combined
         \<and> search ext points query limit = Inr (map hit_of combined)
         \<and> result_id ` fst ` set combined
             = result_id ` set (search_dense ext points (dense_embed ext query) limit)
               \<union> result_id ` set (search_sparse ext points (sparse_embed ext query) limit)
         \<and> distinct (map (\<lambda>x. result_id (fst x)) combined)
         \<and> (\<forall>x \<in> set combined.
               snd x = fused_score 60 (search_dense ext points (dense_embed ext query) limit)
                         (search_sparse ext points (sparse_embed ext query) limit)
                         (result_id (fst x)))
         \<and> sorted_wrt (\<lambda>a b. snd b \<le> snd a) combined
         \<and> length combined \<le> 2 * limit"
proof -
  let ?D = "search_dense ext points (dense_embed ext query) limit"
  let ?S = "search_sparse ext points (sparse_embed ext query) limit"
  let ?c = "sort_key (\<lambda>x. - snd x) (map (scored_item 60) (map snd (fused_ranks ?D ?S)))"
  have c: "combine_results ?D ?S 60 = Inr ?c" by (rule combine_results_60)
  then have s: "search ext points query limit = Inr (map hit_of ?c)"
    by (simp add: search_def Let_def hit_of_def[abs_def])
  have l: "length ?c \<le> 2 * limit"
    using combined_facts(5)[of ?D ?S] assms by simp
  show ?thesis
    using c s l combined_facts(1-4)[of ?D ?S] by blast
qed

theorem search_fusion_witness:
  "length (search_dense ranking_externals
             [demo_point ''a.py'', demo_point ''b.py'', demo_point ''c.py'']
             (dense_embed ranking_externals ''q'') 2) \<le> 2
   \<and> length (search_sparse ranking_externals
             [demo_point ''a.py'', demo_point ''b.py'', demo_point ''c.py'']
             (sparse_embed ranking_externals ''q'') 2) \<le> 2
   \<and> search ranking_externals [demo_point ''a.py'', demo_point ''b.py'', demo_point ''c.py''] ''q'' 2
     = Inr [\<lparr>hit_path = ''b.py'', hit_score = 1 / 31, hit_hash = Some ''#b.py''\<rparr>,
            \<lparr>hit_path = ''a.py'', hit_score = 1 / 61, hit_hash = Some ''#a.py''\<rparr>,
            \<lparr>hit_path = ''c.py'', hit_score = 1 / 61, hit_hash = Some ''#c.py''\<rparr>]"
proof -
  have h: "length (search_dense ranking_externals
             [demo_point ''a.py'', demo_point ''b.py'', demo_point ''c.py'']
             (dense_embed ranking_externals ''q'') 2) \<le> 2"
    "length (search_sparse ranking_externals
             [demo_point ''a.py'', demo_point ''b.py'', demo_point ''c.py'']
             (sparse_embed ranking_externals ''q'') 2) \<le> 2"
    by (simp_all add: ranking_externals_def)
  have r: "search ranking_externals [demo_point ''a.py'', demo_point ''b.py'', demo_point ''c.py''] ''q'' 2
     = Inr [\<lparr>hit_path = ''b.py'', hit_score = 1 / 31, hit_hash = Some ''#b.py''\<rparr>,
            \<lparr>hit_path = ''a.py'', hit_score = 1 / 61, hit_hash = Some ''#a.py''\<rparr>,
            \<lparr>hit_path = ''c.py'', hit_score = 1 / 61, hit_hash = Some ''#c.py''\<rparr>]"
    by (simp add: search_def ranking_externals_def combine_results_def demo_point_def
        as_result_def rrf_score_def reciprocal_rank_def tag_digest_def Let_def
        numeral_2_eq_2)
  show ?thesis
    using search_fusion[OF h] h r by simp
qed

section \<open>Watcher\<close>

lemma fold_record_call: "fold record_call xs calls = calls @ xs"
  by (induction xs arbitrary: calls) (simp_all add: record_call_def)

lemma count_list_insert_distinct:
  "distinct xs \<Longrightarrow> count_list (List.insert p xs) p = 1"
proof (cases "p \<in> set xs")
  case True
  assume "distinct xs"
  with True show ?thesis
    by (induction xs) (auto simp: List.insert_def count_list_0_iff)
next
  case False
  then show ?thesis by (simp add: List.insert_def count_list_0_iff)
qed

lemma schedule_update_unfold:
  "schedule_update update q now h =
     (if debounce_timer h = None \<or> debounce_delay h \<le> now - the (debounce_timer h)
      then \<lparr>searcher = fold update (List.insert q (pending_updates h)) (searcher h),
            pending_updates = [], debounce_timer = Some now,
            debounce_delay = debounce_delay h\<rparr>
      else h\<lparr>pending_updates := List.insert q (pending_updates h)\<rparr>)"
  by (simp add: schedule_update_def process_updates_def Let_def)

lemma ext_py: "splitext_ext ''a.py'' = ''.py''" "splitext_ext ''b.py'' = ''.py''"
  by (simp_all add: splitext_ext_def)

text \<open>
  C9, as stated, fails in its consequence: after a flush at time 0 (an event on
  \<^verbatim>\<open>b.py\<close>), three \<^verbatim>\<open>modify\<close> events on \<^verbatim>\<open>a.py\<close> at 0.5 s, 0.6 s and 0.7 s, within 200 ms
  of each other, cause no update of \<^verbatim>\<open>a.py\<close>: the path stays pending.
\<close>

theorem burst_without_update:
  "on_event py_table record_call (modify_event ''b.py'') 0 (CodeIndexEventHandler [])
     = \<lparr>searcher = [''b.py''], pending_updates = [], debounce_timer = Some 0, debounce_delay = 1\<rparr>
   \<and> on_events py_table record_call
       [(modify_event ''a.py'', 1/2), (modify_event ''a.py'', 3/5), (modify_event ''a.py'', 7/10)]
       \<lparr>searcher = [''b.py''], pending_updates = [], debounce_timer = Some 0, debounce_delay = 1\<rparr>
     = \<lparr>searcher = [''b.py''], pending_updates = [''a.py''], debounce_timer = Some 0,
        debounce_delay = 1\<rparr>
   \<and> count_list [''b.py''] ''a.py'' = 0"
  by (simp add: on_event_def modify_event_def should_process_file_def py_table_def ext_py
      schedule_update_unfold CodeIndexEventHandler_def fold_record_call record_call_def)

lemma burst_count_exact:
  fixes self :: "string list code_index_event_handler"
  assumes "distinct (pending_updates self)" and "debounce_delay self = 1"
    and "t1 \<le> t2" and "t2 \<le> t3" and "t3 - t1 \<le> 1/5"
    and "should_process_file table p"
  shows "count_list (searcher (on_events table record_call (burst p t1 t2 t3) self)) p
           = count_list (searcher self) p
             + (if debounce_timer self = None \<or> 1 \<le> t3 - the (debounce_timer self) then 1 else 0)"
proof -
  have ev: "on_event table record_call (modify_event p) now s = schedule_update record_call p now s"
    for now and s :: "string list code_index_event_handler"
    using assms(6) by (simp add: on_event_def modify_event_def)
  have c1: "count_list (List.insert p (pending_updates self)) p = 1"
    using assms(1) by (rule count_list_insert_distinct)
  have c2: "count_list (List.insert p (List.insert p (pending_updates self))) p = 1"
    using assms(1) by (intro count_list_insert_distinct) simp
  have c3: "count_list (List.insert p (List.insert p (List.insert p (pending_updates self)))) p = 1"
    using assms(1) by (intro count_list_insert_distinct) simp
  have c0: "count_list (List.insert p []) p = 1" by simp
  have c00: "count_list (List.insert p (List.insert p [])) p = 1" by simp
  show ?thesis
    using assms(2-5) c1 c2 c3 c0 c00
    by (auto simp: burst_def ev schedule_update_unfold fold_record_call)
qed

text \<open>
  C9, amended. A qualifying event adds its path to the pending set and flushes (an
  update for each pending path, the set cleared, the time recorded) exactly when no
  timer is set or at least the delay has passed since the recorded time. With the delay
  of 1 s, three \<^verbatim>\<open>modify\<close> events on one path within 200 ms cause exactly one update of
  that path when no timer is set, as on a fresh handler, or the last of them comes at
  least the delay after the recorded time; otherwise they cause none.
\<close>

theorem debounce_flush:
  fixes self :: "string list code_index_event_handler"
  assumes "distinct (pending_updates self)" and "debounce_delay self = 1"
    and "t1 \<le> t2" and "t2 \<le> t3" and "t3 - t1 \<le> 1/5"
    and "should_process_file table p"
  shows "schedule_update update q now h =
           (if debounce_timer h = None \<or> debounce_delay h \<le> now - the (debounce_timer h)
            then \<lparr>searcher = fold update (List.insert q (pending_updates h)) (searcher h),
                  pending_updates = [], debounce_timer = Some now,
                  debounce_delay = debounce_delay h\<rparr>
            else h\<lparr>pending_updates := List.insert q (pending_updates h)\<rparr>)
       \<and> count_list (searcher (on_events table record_call (burst p t1 t2 t3) self)) p
           = count_list (searcher self) p
             + (if debounce_timer self = None \<or> 1 \<le> t3 - the (debounce_timer self)
                then 1 else 0)"
  using schedule_update_unfold[of update q now h] burst_count_exact[OF assms] by blast

theorem debounce_flush_witness:
  "distinct (pending_updates (CodeIndexEventHandler ([]::string list)))
   \<and> debounce_delay (CodeIndexEventHandler ([]::string list)) = 1
   \<and> (0::real) \<le> 1/10 \<and> (1/10::real) \<le> 1/5 \<and> (1/5::real) - 0 \<le> 1/5
   \<and> should_process_file py_table ''a.py''
   \<and> debounce_timer (CodeIndexEventHandler ([]::string list)) = None
   \<and> on_events py_table record_call (burst ''a.py'' 0 (1/10) (1/5)) (CodeIndexEventHandler [])
       = \<lparr>searcher = [''a.py''], pending_updates = [''a.py''], debounce_timer = Some 0,
          debounce_delay = 1\<rparr>
   \<and> count_list (searcher (on_events py_table record_call (burst ''a.py'' 0 (1/10) (1/5))
                              (CodeIndexEventHandler []))) ''a.py'' = 1"
proof -
  have h: "distinct (pending_updates (CodeIndexEventHandler ([]::string list)))"
    "debounce_delay (CodeIndexEventHandler ([]::string list)) = 1"
    "(0::real) \<le> 1/10" "(1/10::real) \<le> 1/5" "(1/5::real) - 0 \<le> 1/5"
    "should_process_file py_table ''a.py''"
    by (simp_all add: CodeIndexEventHandler_def should_process_file_def py_table_def ext_py)
  have r: "on_events py_table record_call (burst ''a.py'' 0 (1/10) (1/5)) (CodeIndexEventHandler [])
       = \<lparr>searcher = [''a.py''], pending_updates = [''a.py''], debounce_timer = Some 0,
          debounce_delay = 1\<rparr>"
    by (simp add: burst_def on_event_def modify_event_def should_process_file_def py_table_def
        ext_py schedule_update_unfold CodeIndexEventHandler_def fold_record_call record_call_def)
  show ?thesis
    using debounce_flush[OF h, of "record_call" "''a.py''" 0 "CodeIndexEventHandler []"] h r
    by (simp add: CodeIndexEventHandler_def)
qed

section \<open>update\_index\<close>

lemma get_code_splitter_keeps:
  "merkle_tree (fst (get_code_splitter ext file_path self)) = merkle_tree self"
  "collection (fst (get_code_splitter ext file_path self)) = collection self"
  by (auto simp: get_code_splitter_def split: option.splits)

lemma walk_hash_rehash:
  "parts \<noteq> [] \<Longrightarrow> walk_hash parts (MerkleNode h f (children c)) = walk_hash parts c"
  by (cases parts) auto

lemma map_of_set_child [simp]:
  "map_of (children (set_child k c n)) k = Some c"
  by (simp add: set_child_def update_conv')

lemma walk_hash_update_parent_hashes:
  "walk_hash (q @ [l]) (update_parent_hashes sha q n) = walk_hash (q @ [l]) n"
proof (induction q arbitrary: n)
  case Nil
  show ?case by simp
next
  case (Cons part rest)
  show ?case
  proof (cases "map_of (children n) part")
    case None
    then show ?thesis by simp
  next
    case (Some c)
    have "walk_hash (rest @ [l]) (MerkleNode
            (compute_directory_hash sha (map (\<lambda>c. hash_value (snd c)) (children c)))
            (is_file c) (children c)) = walk_hash (rest @ [l]) c"
      by (rule walk_hash_rehash) simp
    then show ?thesis using Some Cons.IH by simp
  qed
qed

lemma walk_hash_walk_to_file:
  "parts \<noteq> [] \<Longrightarrow>
   walk_hash parts (walk_to_file (\<lambda>file_node. MerkleNode h True (children file_node)) parts n) = Some h"
  by (induction "\<lambda>file_node. MerkleNode h True (children file_node)" parts n
      rule: walk_to_file.induct) simp_all

lemma relpath_parts_nonempty: "relpath_parts comps \<noteq> []"
  by (simp add: relpath_parts_def)

lemma update_file_leaf_hash:
  assumes "fs_lookup comps fs = Some (File content)"
  shows "snd (update_file sha fs comps tree_root) = None"
    and "walk_hash (relpath_parts comps) (fst (update_file sha fs comps tree_root)) = Some (sha content)"
proof -
  show "snd (update_file sha fs comps tree_root) = None"
    using assms by (simp add: update_file_def Let_def)
  obtain q l where ql: "relpath_parts comps = q @ [l]"
    using relpath_parts_nonempty[of comps] by (metis rev_exhaust)
  have "walk_hash (q @ [l])
          (update_parent_hashes sha q
             (walk_to_file (\<lambda>file_node. MerkleNode (sha content) True (children file_node)) (q @ [l]) tree_root))
        = Some (sha content)"
    by (simp add: walk_hash_update_parent_hashes walk_hash_walk_to_file)
  then show "walk_hash (relpath_parts comps) (fst (update_file sha fs comps tree_root)) = Some (sha content)"
    using assms ql by (simp add: update_file_def Let_def compute_file_hash_def)
qed

text \<open>
  C10. When \<^verbatim>\<open>update_index\<close> is called on an existing file with a recognized extension
  and \<^verbatim>\<open>split_text_with_metadata\<close> raises, the exception leaves the method, the
  collection is as it was (no delete, no upsert), and the Merkle tree is the one
  \<^verbatim>\<open>update_file\<close> made, with the new hash of the file.
\<close>

theorem update_index_chunking_failure:
  assumes "fs_lookup comps fs = Some (File content)"
    and "splitext_ext (path_string (root_path self) comps)
           \<in> fst ` set (EXTENSION_TO_TREE_SITTER_LANGUAGE ext)"
    and "snd (get_code_splitter ext (path_string (root_path self) comps) self) = Inr splitter"
    and "split_text_with_metadata splitter (python_parser ext) (descendant_for_byte_range ext) content
           = Inl err"
  shows "snd (update_index ext fs comps self) = Some err
       \<and> collection (fst (update_index ext fs comps self)) = collection self
       \<and> merkle_tree (fst (update_index ext fs comps self))
           = fst (update_file (sha256_hex ext) fs comps (merkle_tree self))
       \<and> get_node_hash fs comps (merkle_tree (fst (update_index ext fs comps self)))
           = Some (sha256_hex ext content)"
proof -
  let ?fp = "path_string (root_path self) comps"
  obtain self1 where g: "get_code_splitter ext ?fp self = (self1, Inr splitter)"
    using assms(3) by (cases "get_code_splitter ext ?fp self") auto
  have k: "merkle_tree self1 = merkle_tree self" "collection self1 = collection self"
    using get_code_splitter_keeps[of ext ?fp self] g by simp_all
  have u: "snd (update_file (sha256_hex ext) fs comps (merkle_tree self)) = None"
    using assms(1) by (rule update_file_leaf_hash)
  have r: "update_index ext fs comps self
             = (self1\<lparr>merkle_tree := fst (update_file (sha256_hex ext) fs comps (merkle_tree self))\<rparr>,
                Some err)"
    using assms(1,2,4) g k u by (simp add: update_index_def Let_def)
  have "get_node_hash fs comps (fst (update_file (sha256_hex ext) fs comps (merkle_tree self)))
          = Some (sha256_hex ext content)"
    using assms(1) update_file_leaf_hash(2)[OF assms(1)]
    by (simp add: get_node_hash_def path_exists_def)
  then show ?thesis using r k by simp
qed

lemma demo_path_ext: "splitext_ext (path_string (root_path demo_search) [''a.py'']) = ''.py''"
  by (simp add: demo_search_def path_string_def os_path_join_def splitext_ext_def)

theorem update_index_chunking_failure_witness:
  "fs_lookup [''a.py''] broken_fs = Some (File ''x = ('')
   \<and> splitext_ext (path_string (root_path demo_search) [''a.py''])
       \<in> fst ` set (EXTENSION_TO_TREE_SITTER_LANGUAGE demo_externals)
   \<and> snd (get_code_splitter demo_externals (path_string (root_path demo_search) [''a.py''])
            demo_search) = Inr (CodeSplitter length ''python'')
   \<and> split_text_with_metadata (CodeSplitter length ''python'') (python_parser demo_externals)
        (descendant_for_byte_range demo_externals) ''x = ('' = Inl ValueError
   \<and> snd (update_index demo_externals broken_fs [''a.py''] demo_search) = Some ValueError
   \<and> collection (fst (update_index demo_externals broken_fs [''a.py''] demo_search)) = [old_point]
   \<and> payload_hash (payload old_point) = Some ''#x = 1''
   \<and> get_node_hash broken_fs [''a.py'']
        (merkle_tree (fst (update_index demo_externals broken_fs [''a.py''] demo_search)))
       = Some ''#x = (''"
proof -
  have h1: "fs_lookup [''a.py''] broken_fs = Some (File ''x = ('')"
    by (simp add: broken_fs_def)
  have h2: "splitext_ext (path_string (root_path demo_search) [''a.py''])
       \<in> fst ` set (EXTENSION_TO_TREE_SITTER_LANGUAGE demo_externals)"
    by (simp add: demo_path_ext demo_externals_def py_table_def)
  have h3: "snd (get_code_splitter demo_externals (path_string (root_path demo_search) [''a.py''])
            demo_search) = Inr (CodeSplitter length ''python'')"
    by (simp add: get_code_splitter_def demo_path_ext)
       (simp add: demo_externals_def py_table_def demo_search_def)
  have h4: "split_text_with_metadata (CodeSplitter length ''python'') (python_parser demo_externals)
        (descendant_for_byte_range demo_externals) ''x = ('' = Inl ValueError"
    by (simp add: split_text_with_metadata_def get_language_def CodeSplitter_def
        demo_externals_def error_parse_def)
  have c: "collection demo_search = [old_point]"
    by (simp add: demo_search_def)
  have d: "sha256_hex demo_externals ''x = ('' = ''#x = (''"
    by (simp add: demo_externals_def tag_digest_def)
  have p: "payload_hash (payload old_point) = Some ''#x = 1''"
    by (simp add: old_point_def)
  note t = update_index_chunking_failure[OF h1 h2 h3 h4]
  have r1: "snd (update_index demo_externals broken_fs [''a.py''] demo_search) = Some ValueError"
    using t by (rule conjunct1)
  have r2: "collection (fst (update_index demo_externals broken_fs [''a.py''] demo_search))
              = [old_point]"
    using t[THEN conjunct2, THEN conjunct1] c by simp
  have r3: "get_node_hash broken_fs [''a.py'']
              (merkle_tree (fst (update_index demo_externals broken_fs [''a.py''] demo_search)))
            = Some ''#x = (''"
    using t[THEN conjunct2, THEN conjunct2, THEN conjunct2] d by simp
  show ?thesis
    using h1 h2 h3 h4 r1 r2 r3 p by (intro conjI)
qed

end
